theory Spec2Isabelle
  imports Complex_Main "HOL-Library.Multiset" "HOL-Library.Sublist"
begin

section \<open>Data model\<close>

text \<open>
  The two scripts \<^verbatim>\<open>excel_3CNV_analysis.py\<close> (the per-stage variant) and
  \<^verbatim>\<open>overall_analysis_excel.py\<close> (the overall variant) share their readers and the
  column resolver verbatim. Definitions that exist once below stand for both files;
  where the two files differ, the per-stage definition keeps the source's name and
  the overall one carries the prefix \<open>ov_\<close>.

  A Python \<^verbatim>\<open>str\<close> is a \<open>string\<close>; one \<open>char\<close> stands for one character of
  the Python string. A table (a pandas \<^verbatim>\<open>DataFrame\<close>) is the list of its columns in
  column order, each with its name and its cells; a cell is a number, a text or the
  missing value \<^verbatim>\<open>NaN\<close>. Numbers are exact reals: rounding of floating point is not
  modelled.
\<close>

datatype cell = Num real | Str string | NaN

type_synonym table = "(string \<times> cell list) list"

text \<open>
  The exceptions of class \<^verbatim>\<open>Exception\<close> that opening, reading and parsing a file and
  the table operations raise, each with its message.
\<close>

datatype py_exception =
    FileError string
  | ParseError string
  | KeyError string
  | ValueError string
  | UnicodeEncodeError string

definition nl :: char where
  "nl = CHR 0x0A"

definition tab :: char where
  "tab = CHR 0x09"

section \<open>Column resolver\<close>

text \<open>\<^verbatim>\<open>str.lower()\<close> on the ASCII letters; every other character is kept.\<close>

definition lower_char :: "char \<Rightarrow> char" where
  "lower_char c =
     (let n = (of_char c :: nat) in if 65 \<le> n \<and> n \<le> 90 then char_of (n + 32) else c)"

definition lower :: "string \<Rightarrow> string" where
  "lower s = map lower_char s"

text \<open>The test \<^verbatim>\<open>col.lower() in ['segment_mean', 'segmentmean']\<close>.\<close>

definition is_segment_mean_name :: "string \<Rightarrow> bool" where
  "is_segment_mean_name col = (lower col \<in> set [''segment_mean'', ''segmentmean''])"

text \<open>
  \<^verbatim>\<open>
  def get_segment_mean_column(cnv_df):
      for col in cnv_df.columns:
          if col.lower() in ['segment_mean', 'segmentmean']:
              return col
      return None
  \<close>
  The loop over \<^verbatim>\<open>cnv_df.columns\<close> is the recursion over the column names.
\<close>

fun first_segment_mean :: "string list \<Rightarrow> string option" where
  "first_segment_mean [] = None"
| "first_segment_mean (col # cols) =
     (if is_segment_mean_name col then Some col else first_segment_mean cols)"

definition get_segment_mean_column :: "table \<Rightarrow> string option" where
  "get_segment_mean_column cnv_df = first_segment_mean (map fst cnv_df)"

section \<open>Sheet titles of the per-stage exporter\<close>

text \<open>
  \<^verbatim>\<open>
  sheet_title = f'{stage}_{sheet_name}'
  if len(sheet_title) > 31:
      sheet_title = sheet_title[:28] + '...'
  \<close>
\<close>

definition sheet_title :: "string \<Rightarrow> string \<Rightarrow> string" where
  "sheet_title stage sheet_name =
     (let title = stage @ ''_'' @ sheet_name
      in if length title > 31 then take 28 title @ ''...'' else title)"

section \<open>The environment of a run\<close>

text \<open>
  A file of a sample directory is given by its name and by what reading it yields:
  its text (newlines already translated to \<^verbatim>\<open>\n\<close>, as Python's text mode does), or the
  exception that opening or decoding it raises. A directory entry of a stage directory
  is either not a directory or a sample directory with its files in the order that
  \<^verbatim>\<open>os.listdir\<close> returns them.

  \<^verbatim>\<open>pd.read_csv(..., sep='\t')\<close> is a library function: it is the parameter
  \<open>read_csv\<close> of the readers, from the text to a table or to the exception raised.
  What a run prints and what it appends to \<^verbatim>\<open>failed_files.log\<close> is kept in the
  \<open>world\<close>: the messages in printing order and the log's writes in order.
\<close>

type_synonym file_entry = "string \<times> (py_exception + string)"

datatype dir_entry = NotADirectory | Directory "file_entry list"

type_synonym csv_reader = "string \<Rightarrow> py_exception + table"

datatype console_msg =
    FailedCNV string py_exception
  | FailedMAF string py_exception
  | ProcessingSample string
  | NoSegmentMeanWarning string

record world =
  console :: "console_msg list"
  failed_files_log :: "string list"

definition print :: "console_msg \<Rightarrow> world \<Rightarrow> world" where
  "print m w = w\<lparr>console := console w @ [m]\<rparr>"

text \<open>
  \<^verbatim>\<open>print\<close> encodes its message for standard output and raises
  \<^verbatim>\<open>UnicodeEncodeError\<close> when the encoding of standard output has no code for a
  character of the message. Every message of the two scripts begins with a symbol
  outside ASCII and the messages of the readers contain the file path, so whether a
  message can be printed depends on the standard output of the run: it is the
  parameter \<open>encodes\<close> of \<open>print_on\<close>. \<open>print\<close> above is printing on a
  standard output that has a code for every character of the message.
\<close>

type_synonym stdout = "console_msg \<Rightarrow> bool"

definition print_on :: "stdout \<Rightarrow> console_msg \<Rightarrow> world \<Rightarrow> py_exception + world" where
  "print_on encodes m w =
     (if encodes m then Inr (print m w)
      else Inl (UnicodeEncodeError ''codec can't encode character''))"

section \<open>File readers\<close>

text \<open>
  \<^verbatim>\<open>
  def read_cnv_file(file_path):
      try:
          cnv_df = pd.read_csv(file_path, sep='\t')
          return cnv_df
      except Exception as e:
          print(f"... Failed to read CNV file {file_path}: {e}")
          return None
  \<close>
  The body of the \<^verbatim>\<open>try\<close> is a computation that yields a table or raises; the
  handler turns every exception into \<open>None\<close> and one printed message.
\<close>

definition read_cnv_file ::
  "csv_reader \<Rightarrow> string \<Rightarrow> (py_exception + string) \<Rightarrow> world \<Rightarrow> table option \<times> world" where
  "read_cnv_file read_csv file_path content w =
     (case (case content of Inl e \<Rightarrow> Inl e | Inr text \<Rightarrow> read_csv text) of
        Inr cnv_df \<Rightarrow> (Some cnv_df, w)
      | Inl e \<Rightarrow> (None, print (FailedCNV file_path e) w))"

text \<open>
  \<open>read_cnv_file\<close> above is the reader of a run whose standard output can print
  the diagnostic message; the stage processor below is stated for such runs. The
  handler itself is not inside any \<^verbatim>\<open>try\<close>: when its \<^verbatim>\<open>print\<close> raises, the
  exception leaves the reader. \<open>read_cnv_file_on\<close> is the reader on a given
  standard output, with the result of the call or the exception that leaves it.
\<close>

definition read_cnv_file_on ::
  "stdout \<Rightarrow> csv_reader \<Rightarrow> string \<Rightarrow> (py_exception + string) \<Rightarrow> world
     \<Rightarrow> py_exception + table option \<times> world" where
  "read_cnv_file_on encodes read_csv file_path content w =
     (case (case content of Inl e \<Rightarrow> Inl e | Inr text \<Rightarrow> read_csv text) of
        Inr cnv_df \<Rightarrow> Inr (Some cnv_df, w)
      | Inl e \<Rightarrow>
          (case print_on encodes (FailedCNV file_path e) w of
             Inl raised \<Rightarrow> Inl raised
           | Inr w' \<Rightarrow> Inr (None, w')))"

text \<open>
  Iterating over a text file yields its lines, each with its terminating newline; only
  the last line may lack one.
\<close>

fun py_lines :: "string \<Rightarrow> string list" where
  "py_lines [] = []"
| "py_lines (c # cs) =
     (if c = nl then [c] # py_lines cs
      else (case py_lines cs of [] \<Rightarrow> [[c]] | l # ls \<Rightarrow> (c # l) # ls))"

text \<open>\<^verbatim>\<open>sep.join(lines)\<close>.\<close>

fun str_join :: "string \<Rightarrow> string list \<Rightarrow> string" where
  "str_join sep [] = []"
| "str_join sep [x] = x"
| "str_join sep (x # y # ys) = x @ sep @ str_join sep (y # ys)"

text \<open>
  The text that \<open>read_maf_file\<close> hands to the parser:
  \<^verbatim>\<open>
  lines = [line for line in f if not line.startswith('#')]
  ... StringIO("\n".join(lines))
  \<close>
\<close>

definition maf_text :: "string \<Rightarrow> string" where
  "maf_text text = str_join [nl] (filter (\<lambda>line. \<not> prefix ''#'' line) (py_lines text))"

text \<open>
  \<^verbatim>\<open>
  def read_maf_file(file_path):
      try:
          with open(file_path, 'r') as f:
              lines = [line for line in f if not line.startswith('#')]
          return pd.read_csv(StringIO("\n".join(lines)), sep='\t')
      except Exception as e:
          print(f"... Failed to read MAF file {file_path}: {e}")
          return None
  \<close>
\<close>

definition read_maf_file ::
  "csv_reader \<Rightarrow> string \<Rightarrow> (py_exception + string) \<Rightarrow> world \<Rightarrow> table option \<times> world" where
  "read_maf_file read_csv file_path content w =
     (case (case content of Inl e \<Rightarrow> Inl e | Inr text \<Rightarrow> read_csv (maf_text text)) of
        Inr snp_df \<Rightarrow> (Some snp_df, w)
      | Inl e \<Rightarrow> (None, print (FailedMAF file_path e) w))"

text \<open>
  As for the CNV reader: \<open>read_maf_file\<close> above is the reader of a run whose
  standard output can print the diagnostic message, \<open>read_maf_file_on\<close> the reader
  on a given standard output.
\<close>

definition read_maf_file_on ::
  "stdout \<Rightarrow> csv_reader \<Rightarrow> string \<Rightarrow> (py_exception + string) \<Rightarrow> world
     \<Rightarrow> py_exception + table option \<times> world" where
  "read_maf_file_on encodes read_csv file_path content w =
     (case (case content of Inl e \<Rightarrow> Inl e | Inr text \<Rightarrow> read_csv (maf_text text)) of
        Inr snp_df \<Rightarrow> Inr (Some snp_df, w)
      | Inl e \<Rightarrow>
          (case print_on encodes (FailedMAF file_path e) w of
             Inl raised \<Rightarrow> Inl raised
           | Inr w' \<Rightarrow> Inr (None, w')))"

section \<open>Stage processor\<close>

text \<open>\<^verbatim>\<open>os.path.join\<close> of two components (POSIX).\<close>

definition path_join :: "string \<Rightarrow> string \<Rightarrow> string" where
  "path_join a b =
     (if prefix ''/'' b then b
      else if a = [] \<or> suffix ''/'' a then a @ b
      else a @ ''/'' @ b)"

text \<open>\<^verbatim>\<open>sub in s\<close> on strings.\<close>

fun str_contains :: "string \<Rightarrow> string \<Rightarrow> bool" where
  "str_contains sub [] = (sub = [])"
| "str_contains sub (c # cs) = (prefix sub (c # cs) \<or> str_contains sub cs)"

text \<open>
  \<^verbatim>\<open>cnv_df[segment_col].tolist()\<close>. The column is looked up by a name that the
  resolver took from the table, so the lookup never misses.
\<close>

definition column_tolist :: "table \<Rightarrow> string \<Rightarrow> cell list" where
  "column_tolist df col = (case map_of df col of Some cells \<Rightarrow> cells | None \<Rightarrow> [])"

record stage_data =
  cnv_segment_means :: "cell list"
  snp_data :: "table list"

text \<open>
  The body of the loop over the files of one sample, per-stage variant
  (\<^verbatim>\<open>excel_3CNV_analysis.py\<close>, lines 52 to 65):
  \<^verbatim>\<open>
  file_path = os.path.join(sample_path, file)
  if 'Copy_Number_Variation' in file:
      cnv_df = read_cnv_file(file_path)
      if cnv_df is not None:
          segment_col = get_segment_mean_column(cnv_df)
          if segment_col:
              stage_data['cnv_segment_means'].extend(cnv_df[segment_col].tolist())
  elif 'Simple_Nucleotide_Variation' in file or file.endswith('.maf'):
      snp_df = read_maf_file(file_path)
      if snp_df is not None:
          stage_data['snp_data'].append(snp_df)
  \<close>
  The test \<^verbatim>\<open>if segment_col:\<close> fails on \<open>None\<close> and on the empty string.
\<close>

definition process_file ::
  "csv_reader \<Rightarrow> string \<Rightarrow> stage_data \<times> world \<Rightarrow> file_entry \<Rightarrow> stage_data \<times> world" where
  "process_file read_csv sample_path sw fe =
     (let (sd, w) = sw; (file, content) = fe; file_path = path_join sample_path file in
      if str_contains ''Copy_Number_Variation'' file then
        (case read_cnv_file read_csv file_path content w of
           (None, w') \<Rightarrow> (sd, w')
         | (Some cnv_df, w') \<Rightarrow>
             (case get_segment_mean_column cnv_df of
                None \<Rightarrow> (sd, w')
              | Some segment_col \<Rightarrow>
                  if segment_col \<noteq> [] then
                    (sd\<lparr>cnv_segment_means :=
                          cnv_segment_means sd @ column_tolist cnv_df segment_col\<rparr>, w')
                  else (sd, w')))
      else if str_contains ''Simple_Nucleotide_Variation'' file \<or> suffix ''.maf'' file then
        (case read_maf_file read_csv file_path content w of
           (None, w') \<Rightarrow> (sd, w')
         | (Some snp_df, w') \<Rightarrow> (sd\<lparr>snp_data := snp_data sd @ [snp_df]\<rparr>, w'))
      else (sd, w))"

text \<open>
  The body of the loop over the entries of the stage directory:
  \<^verbatim>\<open>
  sample_path = os.path.join(stage_folder, sample_folder)
  if not os.path.isdir(sample_path):
      continue
  for file in os.listdir(sample_path): ...
  \<close>
\<close>

definition process_sample ::
  "csv_reader \<Rightarrow> string \<Rightarrow> stage_data \<times> world \<Rightarrow> string \<times> dir_entry \<Rightarrow> stage_data \<times> world" where
  "process_sample read_csv stage_folder sw e =
     (let (sample_folder, entry) = e; sample_path = path_join stage_folder sample_folder in
      case entry of
        NotADirectory \<Rightarrow> sw
      | Directory files \<Rightarrow> foldl (process_file read_csv sample_path) sw files)"

definition process_stage ::
  "csv_reader \<Rightarrow> string \<Rightarrow> string \<Rightarrow> (string \<times> dir_entry) list \<Rightarrow> world \<Rightarrow> stage_data \<times> world" where
  "process_stage read_csv stage stage_folder listing w =
     foldl (process_sample read_csv stage_folder)
       (\<lparr>cnv_segment_means = [], snp_data = []\<rparr>, w) listing"

subsection \<open>Overall variant\<close>

text \<open>
  A \<^verbatim>\<open>defaultdict(list)\<close> is the list of its keys in insertion order, each with its
  list. \<open>dd_extend\<close> is \<^verbatim>\<open>d[k].extend(xs)\<close>: a missing key is inserted with the
  empty list first.
\<close>

fun dd_extend :: "(string \<times> 'a list) list \<Rightarrow> string \<Rightarrow> 'a list \<Rightarrow> (string \<times> 'a list) list" where
  "dd_extend [] k xs = [(k, xs)]"
| "dd_extend ((k', v) # d) k xs =
     (if k' = k then (k', v @ xs) # d else (k', v) # dd_extend d k xs)"

record ov_stage_data = stage_data +
  cnv_segment_means_by_sample :: "(string \<times> cell list) list"
  snp_data_by_sample :: "(string \<times> table list) list"

text \<open>
  \<^verbatim>\<open>
  def log_failed_file(file_path, reason):
      with open(FAILED_FILES_LOG, 'a') as log:
          log.write(f"{file_path}\t{reason}\n")
  \<close>
\<close>

definition log_failed_file :: "string \<Rightarrow> string \<Rightarrow> world \<Rightarrow> world" where
  "log_failed_file file_path reason w =
     w\<lparr>failed_files_log := failed_files_log w @ [file_path @ [tab] @ reason @ [nl]]\<rparr>"

text \<open>
  The body of the loop over the files of one sample, overall variant
  (\<^verbatim>\<open>overall_analysis_excel.py\<close>, lines 55 to 74). It differs from the per-stage one
  in the per-sample accumulators and in the \<^verbatim>\<open>else\<close> branch of \<^verbatim>\<open>if segment_col:\<close>:
  \<^verbatim>\<open>
  else:
      print(f"... Warning: No Segment Mean column found in {file_path}.")
      log_failed_file(file_path, "Missing Segment Mean column")
  \<close>
\<close>

definition ov_process_file ::
  "csv_reader \<Rightarrow> string \<Rightarrow> string \<Rightarrow> ov_stage_data \<times> world \<Rightarrow> file_entry
     \<Rightarrow> ov_stage_data \<times> world" where
  "ov_process_file read_csv sample_folder sample_path sw fe =
     (let (sd, w) = sw; (file, content) = fe; file_path = path_join sample_path file;
          missing = (\<lambda>w'. log_failed_file file_path ''Missing Segment Mean column''
                             (print (NoSegmentMeanWarning file_path) w')) in
      if str_contains ''Copy_Number_Variation'' file then
        (case read_cnv_file read_csv file_path content w of
           (None, w') \<Rightarrow> (sd, w')
         | (Some cnv_df, w') \<Rightarrow>
             (case get_segment_mean_column cnv_df of
                None \<Rightarrow> (sd, missing w')
              | Some segment_col \<Rightarrow>
                  if segment_col \<noteq> [] then
                    (let segment_means = column_tolist cnv_df segment_col in
                     (sd\<lparr>cnv_segment_means := cnv_segment_means sd @ segment_means,
                         cnv_segment_means_by_sample :=
                           dd_extend (cnv_segment_means_by_sample sd) sample_folder
                             segment_means\<rparr>, w'))
                  else (sd, missing w')))
      else if str_contains ''Simple_Nucleotide_Variation'' file \<or> suffix ''.maf'' file then
        (case read_maf_file read_csv file_path content w of
           (None, w') \<Rightarrow> (sd, w')
         | (Some snp_df, w') \<Rightarrow>
             (sd\<lparr>snp_data := snp_data sd @ [snp_df],
                 snp_data_by_sample :=
                   dd_extend (snp_data_by_sample sd) sample_folder [snp_df]\<rparr>, w'))
      else (sd, w))"

definition ov_process_sample ::
  "csv_reader \<Rightarrow> string \<Rightarrow> ov_stage_data \<times> world \<Rightarrow> string \<times> dir_entry
     \<Rightarrow> ov_stage_data \<times> world" where
  "ov_process_sample read_csv stage_folder sw e =
     (let (sample_folder, entry) = e; sample_path = path_join stage_folder sample_folder in
      case entry of
        NotADirectory \<Rightarrow> sw
      | Directory files \<Rightarrow>
          foldl (ov_process_file read_csv sample_folder sample_path)
            (fst sw, print (ProcessingSample sample_folder) (snd sw)) files)"

definition ov_process_stage ::
  "csv_reader \<Rightarrow> string \<Rightarrow> string \<Rightarrow> (string \<times> dir_entry) list \<Rightarrow> world
     \<Rightarrow> ov_stage_data \<times> world" where
  "ov_process_stage read_csv stage stage_folder listing w =
     foldl (ov_process_sample read_csv stage_folder)
       (\<lparr>cnv_segment_means = [], snp_data = [],
         cnv_segment_means_by_sample = [], snp_data_by_sample = []\<rparr>, w) listing"

section \<open>The pandas operations of the summaries\<close>

text \<open>
  Modelled from the spec: \<^verbatim>\<open>pd.concat(tables, ignore_index=True)\<close> is a library
  function. The spec (4.4): "concatenate all tables row-wise (schema union; missing
  fields become empty/absent) into one combined table". The columns of the result are
  the column names of the tables in the order of their first occurrence; a table
  without a column contributes one \<open>NaN\<close> per row. An empty list of tables raises.
\<close>

definition first_seen :: "'a list \<Rightarrow> 'a list" where
  "first_seen xs = rev (remdups (rev xs))"

definition nrows :: "table \<Rightarrow> nat" where
  "nrows df = (case df of [] \<Rightarrow> 0 | (_, cells) # _ \<Rightarrow> length cells)"

definition pd_concat :: "table list \<Rightarrow> py_exception + table" where
  "pd_concat dfs =
     (if dfs = [] then Inl (ValueError ''No objects to concatenate'')
      else Inr (map (\<lambda>col. (col, concat (map (\<lambda>df. case map_of df col of
                                                        Some cells \<Rightarrow> cells
                                                      | None \<Rightarrow> replicate (nrows df) NaN) dfs)))
                  (first_seen (concat (map (map fst) dfs)))))"

text \<open>\<^verbatim>\<open>df[col]\<close> with a constant name: a missing column raises \<^verbatim>\<open>KeyError\<close>.\<close>

definition get_column :: "table \<Rightarrow> string \<Rightarrow> py_exception + cell list" where
  "get_column df col = (case map_of df col of Some cells \<Rightarrow> Inr cells | None \<Rightarrow> Inl (KeyError col))"

text \<open>
  Modelled from the spec: \<^verbatim>\<open>Series.value_counts()\<close> is a library function. The spec
  (4.4): "group combined rows by gene-symbol field, count rows per group, sort
  descending by count (ties broken by first-encountered order of the grouping
  operation ...)". Missing values are not counted. The groups are taken in first-seen
  order and sorted by descending count with a stable sort.
\<close>

definition value_counts :: "cell list \<Rightarrow> (cell \<times> nat) list" where
  "value_counts xs =
     (let vs = filter (\<lambda>v. v \<noteq> NaN) xs
      in sort_key (\<lambda>p. - int (snd p)) (map (\<lambda>v. (v, count_list vs v)) (first_seen vs)))"

text \<open>\<^verbatim>\<open>.head(n)\<close>: the first \<open>n\<close> entries.\<close>

definition head :: "nat \<Rightarrow> 'a list \<Rightarrow> 'a list" where
  "head n xs = take n xs"

text \<open>
  Modelled from the spec: \<^verbatim>\<open>pd.Series(values).describe()\<close> is a library function.
  The spec (4.4): "count, arithmetic mean, sample standard deviation (denominator
  n-1, Absent/NaN if fewer than 2 values), minimum, 25th/50th/75th percentiles (linear
  interpolation), maximum -- keyed by statistic name". Missing values are left out of
  every statistic. A sequence that holds a text is not numeric and is summarised by
  count, number of distinct values, most frequent value and its frequency.
\<close>

definition numeric_values :: "cell list \<Rightarrow> real list" where
  "numeric_values cells = concat (map (\<lambda>c. case c of Num x \<Rightarrow> [x] | _ \<Rightarrow> []) cells)"

definition mean :: "real list \<Rightarrow> real" where
  "mean xs = sum_list xs / real (length xs)"

definition std :: "real list \<Rightarrow> real" where
  "std xs = sqrt (sum_list (map (\<lambda>x. (x - mean xs)\<^sup>2) xs) / real (length xs - 1))"

definition percentile :: "real list \<Rightarrow> real \<Rightarrow> real" where
  "percentile xs q =
     (let s = sort xs; h = real (length s - 1) * q; lo = nat \<lfloor>h\<rfloor>; hi = nat \<lceil>h\<rceil>
      in s ! lo + (h - real lo) * (s ! hi - s ! lo))"

definition describe_numeric :: "real list \<Rightarrow> (string \<times> cell) list" where
  "describe_numeric xs =
     [(''count'', Num (real (length xs))),
      (''mean'', if xs = [] then NaN else Num (mean xs)),
      (''std'', if length xs < 2 then NaN else Num (std xs)),
      (''min'', if xs = [] then NaN else Num (Min (set xs))),
      (''25%'', if xs = [] then NaN else Num (percentile xs (1/4))),
      (''50%'', if xs = [] then NaN else Num (percentile xs (1/2))),
      (''75%'', if xs = [] then NaN else Num (percentile xs (3/4))),
      (''max'', if xs = [] then NaN else Num (Max (set xs)))]"

definition describe_object :: "cell list \<Rightarrow> (string \<times> cell) list" where
  "describe_object cells =
     (let counts = value_counts cells in
      [(''count'', Num (real (length (filter (\<lambda>v. v \<noteq> NaN) cells)))),
       (''unique'', Num (real (length counts))),
       (''top'', case counts of [] \<Rightarrow> NaN | (v, _) # _ \<Rightarrow> v),
       (''freq'', case counts of [] \<Rightarrow> NaN | (_, n) # _ \<Rightarrow> Num (real n))])"

definition describe :: "cell list \<Rightarrow> (string \<times> cell) list" where
  "describe cells =
     (if list_ex (\<lambda>c. case c of Str _ \<Rightarrow> True | _ \<Rightarrow> False) cells
      then describe_object cells
      else describe_numeric (numeric_values cells))"

section \<open>Summarizer of the per-stage variant\<close>

text \<open>
  A summary table is a frame with one named value column: the statistics by name, or
  the counts by value.
\<close>

datatype frame =
    StatsFrame string "(string \<times> cell) list"
  | CountsFrame string "(cell \<times> nat) list"

text \<open>
  \<^verbatim>\<open>
  def create_stage_summary(stage, stage_data):
      summary = {}
      if stage_data['cnv_segment_means']:
          cnv_stats = pd.Series(stage_data['cnv_segment_means']).describe()
          summary['CNV_Segment_Stats'] = cnv_stats.to_frame(name='Value')
      if stage_data['snp_data']:
          combined_snp_data = pd.concat(stage_data['snp_data'], ignore_index=True)
          top_genes = combined_snp_data['Hugo_Symbol'].value_counts().head(10)
          summary['Top_Mutated_Genes'] = top_genes.to_frame(name='Mutation_Count')
          mutation_classification = combined_snp_data['Variant_Classification'].value_counts()
          summary['Mutation_Classification'] = mutation_classification.to_frame(name='Count')
      return summary
  \<close>
  The dictionary \<^verbatim>\<open>summary\<close> is the list of its items in insertion order. An
  exception of the library calls is not caught: it ends the function.
\<close>

definition create_stage_summary ::
  "string \<Rightarrow> stage_data \<Rightarrow> py_exception + (string \<times> frame) list" where
  "create_stage_summary stage sd =
     (let summary =
            (if cnv_segment_means sd \<noteq> []
             then [(''CNV_Segment_Stats'', StatsFrame ''Value'' (describe (cnv_segment_means sd)))]
             else [])
      in if snp_data sd \<noteq> [] then
           (case pd_concat (snp_data sd) of
              Inl e \<Rightarrow> Inl e
            | Inr combined_snp_data \<Rightarrow>
                (case get_column combined_snp_data ''Hugo_Symbol'' of
                   Inl e \<Rightarrow> Inl e
                 | Inr genes \<Rightarrow>
                     (case get_column combined_snp_data ''Variant_Classification'' of
                        Inl e \<Rightarrow> Inl e
                      | Inr classes \<Rightarrow>
                          Inr (summary @
                            [(''Top_Mutated_Genes'',
                                CountsFrame ''Mutation_Count'' (head 10 (value_counts genes))),
                             (''Mutation_Classification'',
                                CountsFrame ''Count'' (value_counts classes))]))))
         else Inr summary)"

section \<open>Exporters\<close>

text \<open>
  A workbook under construction is the sequence of the sheets written to it, each with
  the name passed to \<^verbatim>\<open>to_excel\<close>.
  \<^verbatim>\<open>
  def save_summaries_to_excel(stage_summaries):
      with pd.ExcelWriter(OUTPUT_EXCEL) as writer:
          for stage, summaries in stage_summaries.items():
              for sheet_name, df in summaries.items():
                  sheet_title = ...
                  df.to_excel(writer, sheet_name=sheet_title)
  \<close>
\<close>

definition save_summaries_to_excel ::
  "(string \<times> (string \<times> frame) list) list \<Rightarrow> (string \<times> frame) list" where
  "save_summaries_to_excel stage_summaries =
     concat (map (\<lambda>(stage, summaries).
                   map (\<lambda>(sheet_name, df). (sheet_title stage sheet_name, df)) summaries)
                 stage_summaries)"

text \<open>
  \<^verbatim>\<open>
  def save_summary_to_excel(cnv_segment_means, snp_data_by_sample):
      with pd.ExcelWriter(OUTPUT_EXCEL_FILE) as writer:
          if cnv_segment_means:
              cnv_stats = pd.Series(cnv_segment_means).describe()
              cnv_stats.to_frame(name='CNV Segment Mean Statistics').to_excel(writer, sheet_name='CNV_Segment_Stats')
          if snp_data_by_sample:
              combined_snp_df = pd.concat([df for dfs in snp_data_by_sample.values() for df in dfs], ignore_index=True)
              top_genes = combined_snp_df['Hugo_Symbol'].value_counts().head(10)
              top_genes.to_frame(name='Mutation_Count').to_excel(writer, sheet_name='Top_Mutated_Genes')
              mutation_class_counts = combined_snp_df['Variant_Classification'].value_counts()
              mutation_class_counts.to_frame(name='Count').to_excel(writer, sheet_name='Mutation_Classification')
  \<close>
  The result is the sequence of sheets written, and the exception that ended the
  function if one was raised. The sheet of the top genes is written before the
  classification column is looked up.
\<close>

definition save_summary_to_excel ::
  "cell list \<Rightarrow> (string \<times> table list) list \<Rightarrow> (string \<times> frame) list \<times> py_exception option" where
  "save_summary_to_excel cnv_segment_means_all snp_data_by_sample_all =
     (let written =
            (if cnv_segment_means_all \<noteq> []
             then [(''CNV_Segment_Stats'',
                    StatsFrame ''CNV Segment Mean Statistics'' (describe cnv_segment_means_all))]
             else [])
      in if snp_data_by_sample_all \<noteq> [] then
           (case pd_concat (concat (map snd snp_data_by_sample_all)) of
              Inl e \<Rightarrow> (written, Some e)
            | Inr combined_snp_df \<Rightarrow>
                (case get_column combined_snp_df ''Hugo_Symbol'' of
                   Inl e \<Rightarrow> (written, Some e)
                 | Inr genes \<Rightarrow>
                     (let written2 = written @
                            [(''Top_Mutated_Genes'',
                              CountsFrame ''Mutation_Count'' (head 10 (value_counts genes)))]
                      in case get_column combined_snp_df ''Variant_Classification'' of
                           Inl e \<Rightarrow> (written2, Some e)
                         | Inr classes \<Rightarrow>
                             (written2 @
                                [(''Mutation_Classification'',
                                  CountsFrame ''Count'' (value_counts classes))], None))))
         else (written, None))"

section \<open>Auxiliary notions for the statements\<close>

text \<open>
  A line as the iteration over a file yields it: not empty, with no newline before its
  last character. In a sequence of such lines every line but the last ends in a
  newline.
\<close>

definition is_line :: "string \<Rightarrow> bool" where
  "is_line l \<longleftrightarrow> l \<noteq> [] \<and> nl \<notin> set (butlast l)"

fun lines_ok :: "string list \<Rightarrow> bool" where
  "lines_ok [] = True"
| "lines_ok [l] = is_line l"
| "lines_ok (l # m # ls) = (is_line l \<and> last l = nl \<and> lines_ok (m # ls))"

text \<open>
  The segment-mean column of a file that is named as a CNV file, is read successfully
  and has a resolved segment-mean column; \<open>None\<close> for every other file.
\<close>

definition cnv_column :: "csv_reader \<Rightarrow> file_entry \<Rightarrow> cell list option" where
  "cnv_column read_csv fe =
     (let (file, content) = fe in
      if str_contains ''Copy_Number_Variation'' file then
        (case content of
           Inl e \<Rightarrow> None
         | Inr text \<Rightarrow>
             (case read_csv text of
                Inl e \<Rightarrow> None
              | Inr df \<Rightarrow>
                  (case get_segment_mean_column df of
                     None \<Rightarrow> None
                   | Some col \<Rightarrow> Some (column_tolist df col))))
      else None)"

definition cnv_values :: "csv_reader \<Rightarrow> file_entry \<Rightarrow> cell list" where
  "cnv_values read_csv fe = (case cnv_column read_csv fe of None \<Rightarrow> [] | Some cells \<Rightarrow> cells)"

text \<open>
  The table of a file that is not named as a CNV file, is named as a mutation file and
  is read successfully; \<open>None\<close> for every other file.
\<close>

definition maf_table :: "csv_reader \<Rightarrow> file_entry \<Rightarrow> table option" where
  "maf_table read_csv fe =
     (let (file, content) = fe in
      if \<not> str_contains ''Copy_Number_Variation'' file \<and>
         (str_contains ''Simple_Nucleotide_Variation'' file \<or> suffix ''.maf'' file) then
        (case content of
           Inl e \<Rightarrow> None
         | Inr text \<Rightarrow> (case read_csv (maf_text text) of Inl e \<Rightarrow> None | Inr df \<Rightarrow> Some df))
      else None)"

definition maf_tables :: "csv_reader \<Rightarrow> file_entry \<Rightarrow> table list" where
  "maf_tables read_csv fe = (case maf_table read_csv fe of None \<Rightarrow> [] | Some df \<Rightarrow> [df])"

text \<open>The files of all sample directories of a stage directory, in enumeration order.\<close>

definition sample_files :: "(string \<times> dir_entry) list \<Rightarrow> file_entry list" where
  "sample_files listing =
     concat (map (\<lambda>(sample_folder, entry).
                    case entry of NotADirectory \<Rightarrow> [] | Directory files \<Rightarrow> files) listing)"

text \<open>
  A stage directory without regard to enumeration order: the multiset of its entries,
  each sample directory with the multiset of its files. Two listings with the same
  bag are two enumeration orders of the same directory tree.
\<close>

definition entry_bag :: "string \<times> dir_entry \<Rightarrow> string \<times> file_entry multiset option" where
  "entry_bag e =
     (let (sample_folder, entry) = e in
      (sample_folder, case entry of NotADirectory \<Rightarrow> None | Directory files \<Rightarrow> Some (mset files)))"

definition stage_bag ::
  "(string \<times> dir_entry) list \<Rightarrow> (string \<times> file_entry multiset option) multiset" where
  "stage_bag listing = image_mset entry_bag (mset listing)"

text \<open>The values that the files of one bagged entry contribute, as a multiset.\<close>

definition bag_values ::
  "csv_reader \<Rightarrow> string \<times> file_entry multiset option \<Rightarrow> cell multiset" where
  "bag_values read_csv b =
     (case snd b of
        None \<Rightarrow> {#}
      | Some files \<Rightarrow> \<Sum>\<^sub># (image_mset (\<lambda>fe. mset (cnv_values read_csv fe)) files))"

text \<open>A stage directory with the files named as CNV files removed.\<close>

definition drop_cnv_named :: "(string \<times> dir_entry) list \<Rightarrow> (string \<times> dir_entry) list" where
  "drop_cnv_named listing =
     map (\<lambda>(sample_folder, entry).
            (sample_folder,
             case entry of
               NotADirectory \<Rightarrow> NotADirectory
             | Directory files \<Rightarrow>
                 Directory (filter (\<lambda>(file, content).
                                      \<not> str_contains ''Copy_Number_Variation'' file) files)))
         listing"

text \<open>
  The per-sample dictionaries of the overall variant, followed through the files of one
  sample and through the entries of a stage directory: a file that contributes
  \<open>xs\<close> extends the list of its sample by \<open>xs\<close>, every other file changes nothing.
\<close>

definition by_sample_step ::
  "(file_entry \<Rightarrow> 'a list option) \<Rightarrow> string \<Rightarrow> (string \<times> 'a list) list \<Rightarrow> file_entry
     \<Rightarrow> (string \<times> 'a list) list" where
  "by_sample_step f sample_folder d fe =
     (case f fe of None \<Rightarrow> d | Some xs \<Rightarrow> dd_extend d sample_folder xs)"

definition by_sample_entry ::
  "(file_entry \<Rightarrow> 'a list option) \<Rightarrow> (string \<times> 'a list) list \<Rightarrow> string \<times> dir_entry
     \<Rightarrow> (string \<times> 'a list) list" where
  "by_sample_entry f d e =
     (case snd e of
        NotADirectory \<Rightarrow> d
      | Directory files \<Rightarrow> foldl (by_sample_step f (fst e)) d files)"

definition maf_table_list :: "csv_reader \<Rightarrow> file_entry \<Rightarrow> table list option" where
  "maf_table_list read_csv fe = map_option (\<lambda>df. [df]) (maf_table read_csv fe)"

section \<open>A small run for the examples\<close>

text \<open>
  A parser that knows five texts, a stage directory with two samples and one entry that
  is not a directory, the same directory in another enumeration order, and the world
  before anything is printed or logged.
\<close>

definition example_reader :: csv_reader where
  "example_reader t =
     (if t = ''a'' then Inr [(''Chromosome'', [Str ''1'', Str ''2'']),
                             (''Segment_Mean'', [Num 1, Num 2])]
      else if t = ''b'' then Inr [(''segmentmean'', [Num 3])]
      else if t = ''c'' then Inr [(''Chromosome'', [Str ''1''])]
      else if t = ''m'' then Inr [(''Hugo_Symbol'', [Str ''TP53'']),
                                  (''Variant_Classification'', [Str ''Silent''])]
      else Inl (ParseError t))"

definition example_listing :: "(string \<times> dir_entry) list" where
  "example_listing =
     [(''S1'', Directory [(''x.Copy_Number_Variation.tsv'', Inr ''a''),
                          (''y.maf'', Inr ''m''),
                          (''Copy_Number_Variation.maf'', Inr ''c'')]),
      (''notes.txt'', NotADirectory),
      (''S2'', Directory [(''Copy_Number_Variation_2'', Inr ''b''),
                          (''broken.maf'', Inl (FileError ''denied''))])]"

definition example_listing_reordered :: "(string \<times> dir_entry) list" where
  "example_listing_reordered =
     [(''S2'', Directory [(''broken.maf'', Inl (FileError ''denied'')),
                          (''Copy_Number_Variation_2'', Inr ''b'')]),
      (''S1'', Directory [(''Copy_Number_Variation.maf'', Inr ''c''),
                          (''y.maf'', Inr ''m''),
                          (''x.Copy_Number_Variation.tsv'', Inr ''a'')]),
      (''notes.txt'', NotADirectory)]"

definition empty_world :: world where
  "empty_world = \<lparr>console = [], failed_files_log = []\<rparr>"

text \<open>
  A standard output with an ASCII encoding: it can print none of the messages, which
  all begin with a symbol outside ASCII.
\<close>

definition ascii_stdout :: stdout where
  "ascii_stdout m = False"

text \<open>
  A mutation file of four lines: a header, a comment line, and one row whose second
  field is quoted and runs over two lines.
\<close>

definition example_maf :: string where
  "example_maf =
     ''Hugo_Symbol'' @ [tab] @ ''Note'' @ [nl] @
     ''#version 2.4'' @ [nl] @
     ''TP53'' @ [tab, CHR 0x22] @ ''first'' @ [nl] @
     ''second'' @ [CHR 0x22, nl]"

text \<open>A parser that makes one row of every line of its text, blank or not.\<close>

definition line_reader :: csv_reader where
  "line_reader t = Inr [(''line'', map Str (py_lines t))]"

text \<open>
  What the claim on the top mutated genes says of a table \<open>ranked\<close> of counts, for the
  gene column \<open>genes\<close> of the concatenated rows: at most ten entries, one entry per
  gene, each with the number of rows of that gene, in descending order of count, so
  that a strictly higher count stands before a lower one, and a gene left out has no
  more rows than any gene listed.
\<close>

definition top_ten_of :: "cell list \<Rightarrow> (cell \<times> nat) list \<Rightarrow> bool" where
  "top_ten_of genes ranked \<longleftrightarrow>
     length ranked \<le> 10 \<and>
     distinct (map fst ranked) \<and>
     (\<forall>p \<in> set ranked. fst p \<in> set genes \<and> fst p \<noteq> NaN \<and> snd p = count_list genes (fst p)) \<and>
     (\<forall>i j. i < j \<and> j < length ranked \<longrightarrow> snd (ranked ! j) \<le> snd (ranked ! i)) \<and>
     (\<forall>i j. i < length ranked \<and> j < length ranked \<and> snd (ranked ! j) < snd (ranked ! i) \<longrightarrow> i < j) \<and>
     (\<forall>g \<in> set genes. g \<noteq> NaN \<and> g \<notin> fst ` set ranked \<longrightarrow>
        length ranked = 10 \<and> (\<forall>p \<in> set ranked. count_list genes g \<le> snd p))"

text \<open>
  Two mutation tables of one stage: eleven rows, five of the gene TP53, three of KRAS and
  three of EGFR.
\<close>

definition example_mutations :: stage_data where
  "example_mutations =
     \<lparr>cnv_segment_means = [],
      snp_data =
        [[(''Hugo_Symbol'', [Str ''KRAS'', Str ''TP53'', Str ''TP53'', Str ''EGFR'',
                             Str ''TP53'', Str ''KRAS'']),
          (''Variant_Classification'', [Str ''Silent'', Str ''Missense'', Str ''Missense'',
                                        Str ''Silent'', Str ''Missense'', Str ''Missense''])],
         [(''Hugo_Symbol'', [Str ''EGFR'', Str ''TP53'', Str ''KRAS'', Str ''EGFR'',
                             Str ''TP53'']),
          (''Variant_Classification'', [Str ''Missense'', Str ''Missense'', Str ''Silent'',
                                        Str ''Missense'', Str ''Missense''])]]\<rparr>"

definition example_genes :: "cell list" where
  "example_genes =
     [Str ''KRAS'', Str ''TP53'', Str ''TP53'', Str ''EGFR'', Str ''TP53'', Str ''KRAS'',
      Str ''EGFR'', Str ''TP53'', Str ''KRAS'', Str ''EGFR'', Str ''TP53'']"

section \<open>Properties of the column resolver\<close>

lemma first_segment_mean_None:
  "first_segment_mean cols = None \<longleftrightarrow> (\<forall>c \<in> set cols. \<not> is_segment_mean_name c)"
  by (induction cols) auto

lemma first_segment_mean_Some:
  "first_segment_mean cols = Some c \<longleftrightarrow>
     (\<exists>i < length cols. cols ! i = c \<and> is_segment_mean_name c \<and>
        (\<forall>j < i. \<not> is_segment_mean_name (cols ! j)))"
proof (induction cols)
  case Nil
  show ?case by simp
next
  case (Cons a cols)
  show ?case
  proof (cases "is_segment_mean_name a")
    case True
    have "(\<exists>i < length (a # cols). (a # cols) ! i = c \<and> is_segment_mean_name c \<and>
            (\<forall>j < i. \<not> is_segment_mean_name ((a # cols) ! j))) \<longleftrightarrow> a = c"
    proof
      assume "\<exists>i < length (a # cols). (a # cols) ! i = c \<and> is_segment_mean_name c \<and>
            (\<forall>j < i. \<not> is_segment_mean_name ((a # cols) ! j))"
      then obtain i where i: "(a # cols) ! i = c"
        "\<forall>j < i. \<not> is_segment_mean_name ((a # cols) ! j)" by blast
      have "i = 0"
      proof (rule ccontr)
        assume "i \<noteq> 0"
        then have "0 < i" by simp
        with i(2) have "\<not> is_segment_mean_name ((a # cols) ! 0)" by blast
        with True show False by simp
      qed
      with i(1) show "a = c" by simp
    next
      assume "a = c"
      with True have "(a # cols) ! 0 = c \<and> is_segment_mean_name c \<and>
          (\<forall>j < 0. \<not> is_segment_mean_name ((a # cols) ! j))" by simp
      then show "\<exists>i < length (a # cols). (a # cols) ! i = c \<and> is_segment_mean_name c \<and>
            (\<forall>j < i. \<not> is_segment_mean_name ((a # cols) ! j))" by (intro exI[of _ 0]) simp
    qed
    with True show ?thesis by auto
  next
    case False
    have "(\<exists>i < length (a # cols). (a # cols) ! i = c \<and> is_segment_mean_name c \<and>
            (\<forall>j < i. \<not> is_segment_mean_name ((a # cols) ! j))) \<longleftrightarrow>
          (\<exists>i < length cols. cols ! i = c \<and> is_segment_mean_name c \<and>
            (\<forall>j < i. \<not> is_segment_mean_name (cols ! j)))" (is "?L \<longleftrightarrow> ?R")
    proof
      assume ?L
      then obtain i where i: "i < length (a # cols)" "(a # cols) ! i = c"
        "is_segment_mean_name c" "\<forall>j < i. \<not> is_segment_mean_name ((a # cols) ! j)" by blast
      from i(2,3) False have "i \<noteq> 0" by (cases i) auto
      then obtain k where k: "i = Suc k" by (cases i) auto
      have "\<forall>j < k. \<not> is_segment_mean_name (cols ! j)"
      proof (intro allI impI)
        fix j assume "j < k"
        then have "Suc j < i" using k by simp
        with i(4) have "\<not> is_segment_mean_name ((a # cols) ! Suc j)" by blast
        then show "\<not> is_segment_mean_name (cols ! j)" by simp
      qed
      with i k show ?R by (intro exI[of _ k]) simp
    next
      assume ?R
      then obtain k where k: "k < length cols" "cols ! k = c" "is_segment_mean_name c"
        "\<forall>j < k. \<not> is_segment_mean_name (cols ! j)" by blast
      have "\<forall>j < Suc k. \<not> is_segment_mean_name ((a # cols) ! j)"
      proof (intro allI impI)
        fix j assume "j < Suc k"
        then show "\<not> is_segment_mean_name ((a # cols) ! j)"
          using False k(4) by (cases j) auto
      qed
      with k show ?L by (intro exI[of _ "Suc k"]) simp
    qed
    with False Cons.IH show ?thesis by simp
  qed
qed

text \<open>
  C2. For every table, \<open>get_segment_mean_column\<close> returns the first column, in the
  table's column order, whose lowercased name is \<open>segment_mean\<close> or \<open>segmentmean\<close>:
  it returns column \<open>c\<close> exactly when some position \<open>i\<close> of the column list holds
  \<open>c\<close>, the lowercased \<open>c\<close> is one of the two names, and no earlier position holds a
  matching name. It returns \<open>None\<close> if and only if no column name matches.
\<close>

theorem get_segment_mean_column_first_match:
  "(get_segment_mean_column cnv_df = Some c \<longleftrightarrow>
      (\<exists>i < length cnv_df. fst (cnv_df ! i) = c \<and>
         (lower c = ''segment_mean'' \<or> lower c = ''segmentmean'') \<and>
         (\<forall>j < i. lower (fst (cnv_df ! j)) \<noteq> ''segment_mean'' \<and>
                   lower (fst (cnv_df ! j)) \<noteq> ''segmentmean''))) \<and>
   (get_segment_mean_column cnv_df = None \<longleftrightarrow>
      (\<forall>col \<in> set (map fst cnv_df).
          lower col \<noteq> ''segment_mean'' \<and> lower col \<noteq> ''segmentmean''))"
proof -
  have m: "\<And>s. is_segment_mean_name s \<longleftrightarrow>
      (lower s = ''segment_mean'' \<or> lower s = ''segmentmean'')"
    by (simp add: is_segment_mean_name_def)
  have "get_segment_mean_column cnv_df = Some c \<longleftrightarrow>
      (\<exists>i < length (map fst cnv_df). map fst cnv_df ! i = c \<and> is_segment_mean_name c \<and>
        (\<forall>j < i. \<not> is_segment_mean_name (map fst cnv_df ! j)))"
    unfolding get_segment_mean_column_def by (rule first_segment_mean_Some)
  also have "\<dots> \<longleftrightarrow> (\<exists>i < length cnv_df. fst (cnv_df ! i) = c \<and>
         (lower c = ''segment_mean'' \<or> lower c = ''segmentmean'') \<and>
         (\<forall>j < i. lower (fst (cnv_df ! j)) \<noteq> ''segment_mean'' \<and>
                   lower (fst (cnv_df ! j)) \<noteq> ''segmentmean''))"
    by (auto simp: m)
  finally have a: "get_segment_mean_column cnv_df = Some c \<longleftrightarrow>
      (\<exists>i < length cnv_df. fst (cnv_df ! i) = c \<and>
         (lower c = ''segment_mean'' \<or> lower c = ''segmentmean'') \<and>
         (\<forall>j < i. lower (fst (cnv_df ! j)) \<noteq> ''segment_mean'' \<and>
                   lower (fst (cnv_df ! j)) \<noteq> ''segmentmean''))" .
  have b: "get_segment_mean_column cnv_df = None \<longleftrightarrow>
      (\<forall>col \<in> set (map fst cnv_df).
          lower col \<noteq> ''segment_mean'' \<and> lower col \<noteq> ''segmentmean'')"
    unfolding get_segment_mean_column_def first_segment_mean_None by (simp add: m)
  from a b show ?thesis by blast
qed

lemma lower_Segment_Mean: "lower ''Segment_Mean'' = ''segment_mean''"
  by code_simp

lemma lower_Chromosome: "lower ''Chromosome'' = ''chromosome''"
  by code_simp

lemma lower_Start: "lower ''Start'' = ''start''"
  by code_simp

theorem get_segment_mean_column_first_match_witness:
  "get_segment_mean_column
     [(''Chromosome'', [Str ''1'']), (''Segment_Mean'', [Num 1]), (''segmentmean'', [Num 2])]
     = Some ''Segment_Mean'' \<and>
   get_segment_mean_column [(''Start'', [Num 7])] = None"
proof -
  let ?t = "[(''Chromosome'', [Str ''1'']), (''Segment_Mean'', [Num 1]),
             (''segmentmean'', [Num 2])]"
  have "\<exists>i < length ?t. fst (?t ! i) = ''Segment_Mean'' \<and>
         (lower ''Segment_Mean'' = ''segment_mean'' \<or>
          lower ''Segment_Mean'' = ''segmentmean'') \<and>
         (\<forall>j < i. lower (fst (?t ! j)) \<noteq> ''segment_mean'' \<and>
                   lower (fst (?t ! j)) \<noteq> ''segmentmean'')"
    by (rule exI[of _ 1]) (simp add: lower_Segment_Mean lower_Chromosome)
  then have a: "get_segment_mean_column ?t = Some ''Segment_Mean''"
    using get_segment_mean_column_first_match[of ?t "''Segment_Mean''"] by blast
  have "\<forall>col \<in> set (map fst [(''Start'', [Num 7])]).
          lower col \<noteq> ''segment_mean'' \<and> lower col \<noteq> ''segmentmean''"
    by (simp add: lower_Start)
  then have b: "get_segment_mean_column [(''Start'', [Num 7])] = None"
    using get_segment_mean_column_first_match[of "[(''Start'', [Num 7])]" "''x''"] by blast
  from a b show ?thesis by simp
qed

section \<open>Properties of the sheet titles\<close>

text \<open>
  C3. In the per-stage exporter, for every stage identifier and table name, the
  sheet title \<open>stage + "_" + name\<close> is left unchanged when it has at most 31
  characters; when it has more than 31 it is replaced by its first 28 characters
  followed by the three characters \<open>...\<close>, and the result has exactly 31 characters.
\<close>

theorem sheet_title_truncation:
  "(length (stage @ ''_'' @ sheet_name) \<le> 31 \<longrightarrow>
      sheet_title stage sheet_name = stage @ ''_'' @ sheet_name) \<and>
   (length (stage @ ''_'' @ sheet_name) > 31 \<longrightarrow>
      sheet_title stage sheet_name = take 28 (stage @ ''_'' @ sheet_name) @ ''...'' \<and>
      length (sheet_title stage sheet_name) = 31)"
  by (auto simp: sheet_title_def Let_def)

theorem sheet_title_truncation_witness:
  "length (''StageIIA'' @ ''_'' @ ''CNV_Segment_Stats'') \<le> 31 \<and>
   sheet_title ''StageIIA'' ''CNV_Segment_Stats'' = ''StageIIA_CNV_Segment_Stats'' \<and>
   length (''Stage_IIIB_'' @ ''_'' @ ''Mutation_Classification'') > 31 \<and>
   sheet_title ''Stage_IIIB_'' ''Mutation_Classification'' = ''Stage_IIIB__Mutation_Classif...'' \<and>
   length (sheet_title ''Stage_IIIB_'' ''Mutation_Classification'') = 31"
  using sheet_title_truncation[of "''StageIIA''" "''CNV_Segment_Stats''"]
        sheet_title_truncation[of "''Stage_IIIB_''" "''Mutation_Classification''"]
  by simp

lemma sheet_title_length: "length (sheet_title stage sheet_name) \<le> 31"
  by (auto simp: sheet_title_def Let_def)

lemma save_summaries_to_excel_titles:
  assumes "(title, df) \<in> set (save_summaries_to_excel stage_summaries)"
  shows "\<exists>stage summaries sheet_name.
           (stage, summaries) \<in> set stage_summaries \<and> (sheet_name, df) \<in> set summaries \<and>
           title = sheet_title stage sheet_name \<and> length title \<le> 31"
  using assms unfolding save_summaries_to_excel_def
  by (fastforce simp: sheet_title_length)

section \<open>Properties of the readers\<close>

lemma concat_py_lines: "concat (py_lines s) = s"
  by (induction s) (auto split: list.splits)

lemma lines_ok_Cons:
  "is_line l \<Longrightarrow> last l = nl \<Longrightarrow> lines_ok ls \<Longrightarrow> lines_ok (l # ls)"
  by (cases ls) auto

lemma lines_ok_tl: "lines_ok (l # ls) \<Longrightarrow> lines_ok ls"
  by (cases ls) auto

lemma lines_ok_hd: "lines_ok (l # ls) \<Longrightarrow> is_line l"
  by (cases ls) auto

lemma lines_ok_py_lines: "lines_ok (py_lines s)"
proof (induction s)
  case Nil
  show ?case by simp
next
  case (Cons c cs)
  show ?case
  proof (cases "c = nl")
    case True
    have "is_line [nl]" by (simp add: is_line_def)
    with True Cons.IH show ?thesis by (simp add: lines_ok_Cons)
  next
    case False
    show ?thesis
    proof (cases "py_lines cs")
      case Nil
      with False show ?thesis by (simp add: is_line_def)
    next
      case (Cons l ls)
      with Cons.IH have l: "is_line l" and ls: "lines_ok (l # ls)"
        by (auto dest: lines_ok_hd)
      from l False have cl: "is_line (c # l)" by (auto simp: is_line_def)
      have "lines_ok ((c # l) # ls)"
      proof (cases ls)
        case Nil
        with cl show ?thesis by simp
      next
        case (Cons m ms)
        with ls l cl show ?thesis by (auto simp: is_line_def)
      qed
      with False Cons show ?thesis by simp
    qed
  qed
qed

lemma lines_ok_filter: "lines_ok ls \<Longrightarrow> lines_ok (filter P ls)"
proof (induction ls rule: lines_ok.induct)
  case 1
  show ?case by simp
next
  case (2 l)
  then show ?case by simp
next
  case (3 l m ls)
  from 3 have r: "lines_ok (filter P (m # ls))" by simp
  from 3 have l: "is_line l" "last l = nl" by simp_all
  show ?case
  proof (cases "P l")
    case True
    have "lines_ok (l # filter P (m # ls))"
      using l r by (rule lines_ok_Cons)
    with True show ?thesis by simp
  next
    case False
    with r show ?thesis by simp
  qed
qed

lemma py_lines_complete_line:
  "is_line l \<Longrightarrow> last l = nl \<Longrightarrow> py_lines (l @ rest) = l # py_lines rest"
proof (induction l)
  case Nil
  then show ?case by (simp add: is_line_def)
next
  case (Cons c l)
  show ?case
  proof (cases "l = []")
    case True
    with Cons.prems show ?thesis by simp
  next
    case False
    with Cons.prems have "c \<noteq> nl" "is_line l" "last l = nl"
      by (auto simp: is_line_def)
    with Cons.IH show ?thesis by simp
  qed
qed

lemma py_lines_single_line: "is_line l \<Longrightarrow> py_lines l = [l]"
proof (induction l)
  case Nil
  then show ?case by (simp add: is_line_def)
next
  case (Cons c l)
  show ?case
  proof (cases "l = []")
    case True
    then show ?thesis by simp
  next
    case False
    with Cons.prems have "c \<noteq> nl" "is_line l"
      by (auto simp: is_line_def)
    with Cons.IH show ?thesis by simp
  qed
qed

lemma py_lines_join_filter:
  "lines_ok ls \<Longrightarrow>
     filter (\<lambda>l. l \<noteq> [nl]) (py_lines (str_join [nl] ls)) = filter (\<lambda>l. l \<noteq> [nl]) ls"
proof (induction ls rule: lines_ok.induct)
  case 1
  show ?case by simp
next
  case (2 l)
  then show ?case by (simp add: py_lines_single_line)
next
  case (3 l m ls)
  then have "py_lines (l @ [nl] @ str_join [nl] (m # ls)) =
             l # [nl] # py_lines (str_join [nl] (m # ls))"
    by (simp add: py_lines_complete_line)
  with 3 show ?case by simp
qed

lemma py_lines_join_subset:
  "lines_ok ls \<Longrightarrow> set (py_lines (str_join [nl] ls)) \<subseteq> insert [nl] (set ls)"
proof (induction ls rule: lines_ok.induct)
  case 1
  show ?case by simp
next
  case (2 l)
  then show ?case by (simp add: py_lines_single_line)
next
  case (3 l m ls)
  then have "py_lines (l @ [nl] @ str_join [nl] (m # ls)) =
             l # [nl] # py_lines (str_join [nl] (m # ls))"
    by (simp add: py_lines_complete_line)
  with 3 show ?case by auto
qed

text \<open>
  What holds of \<open>read_maf_file\<close> for every readable file: it returns what the
  parser makes of \<open>maf_text\<close>; the lines of that text, lines that consist of a
  newline only aside, are the lines of the file whose first character is not \<open>#\<close>,
  in the file's order; no line of it begins with \<open>#\<close>; and two files with the same
  lines outside the \<open>#\<close> lines give the same result.
\<close>

lemma read_maf_file_kept_lines:
  "fst (read_maf_file read_csv file_path (Inr text) w) =
     (case read_csv (maf_text text) of Inr df \<Rightarrow> Some df | Inl e \<Rightarrow> None) \<and>
   filter (\<lambda>l. l \<noteq> [nl]) (py_lines (maf_text text)) =
     filter (\<lambda>l. l \<noteq> [nl]) (filter (\<lambda>l. \<not> prefix ''#'' l) (py_lines text)) \<and>
   (\<forall>l \<in> set (py_lines (maf_text text)). \<not> prefix ''#'' l) \<and>
   (\<forall>text'. filter (\<lambda>l. \<not> prefix ''#'' l) (py_lines text') =
             filter (\<lambda>l. \<not> prefix ''#'' l) (py_lines text) \<longrightarrow>
      read_maf_file read_csv file_path (Inr text') w =
      read_maf_file read_csv file_path (Inr text) w)"
proof -
  let ?keep = "filter (\<lambda>l. \<not> prefix ''#'' l) (py_lines text)"
  have ok: "lines_ok ?keep"
    by (rule lines_ok_filter) (rule lines_ok_py_lines)
  have a: "fst (read_maf_file read_csv file_path (Inr text) w) =
     (case read_csv (maf_text text) of Inr df \<Rightarrow> Some df | Inl e \<Rightarrow> None)"
    by (simp add: read_maf_file_def split: sum.splits)
  have b: "filter (\<lambda>l. l \<noteq> [nl]) (py_lines (maf_text text)) = filter (\<lambda>l. l \<noteq> [nl]) ?keep"
    unfolding maf_text_def using ok by (rule py_lines_join_filter)
  have "set (py_lines (maf_text text)) \<subseteq> insert [nl] (set ?keep)"
    unfolding maf_text_def using ok by (rule py_lines_join_subset)
  moreover have "\<not> prefix ''#'' [nl]" by (simp add: nl_def)
  ultimately have c: "\<forall>l \<in> set (py_lines (maf_text text)). \<not> prefix ''#'' l"
    by auto
  have d: "\<forall>text'. filter (\<lambda>l. \<not> prefix ''#'' l) (py_lines text') = ?keep \<longrightarrow>
      read_maf_file read_csv file_path (Inr text') w =
      read_maf_file read_csv file_path (Inr text) w"
    by (simp add: read_maf_file_def maf_text_def)
  from a b c d show ?thesis by blast
qed

text \<open>
  The join puts a newline between lines that still end in their own newline, so the
  text parsed is longer than the text of the kept lines as soon as two lines are kept.
\<close>

lemma length_str_join:
  "length (str_join sep ls) = sum_list (map length ls) + length sep * (length ls - 1)"
  by (induction sep ls rule: str_join.induct) simp_all

lemma maf_text_not_the_kept_lines:
  assumes "2 \<le> length (filter (\<lambda>l. \<not> prefix ''#'' l) (py_lines text))"
  shows "maf_text text \<noteq> concat (filter (\<lambda>l. \<not> prefix ''#'' l) (py_lines text))"
proof -
  let ?kept = "filter (\<lambda>l. \<not> prefix ''#'' l) (py_lines text)"
  have "length (maf_text text) = sum_list (map length ?kept) + (length ?kept - 1)"
    by (simp add: maf_text_def length_str_join)
  moreover have "length (concat ?kept) = sum_list (map length ?kept)"
    by (simp add: length_concat)
  ultimately have "length (maf_text text) \<noteq> length (concat ?kept)"
    using assms by simp
  then show ?thesis by auto
qed

lemma example_maf_lines:
  "py_lines example_maf =
     [''Hugo_Symbol'' @ [tab] @ ''Note'' @ [nl],
      ''#version 2.4'' @ [nl],
      ''TP53'' @ [tab, CHR 0x22] @ ''first'' @ [nl],
      ''second'' @ [CHR 0x22, nl]]"
  unfolding example_maf_def by code_simp

lemma example_maf_kept:
  "filter (\<lambda>l. \<not> prefix ''#'' l) (py_lines example_maf) =
     [''Hugo_Symbol'' @ [tab] @ ''Note'' @ [nl],
      ''TP53'' @ [tab, CHR 0x22] @ ''first'' @ [nl],
      ''second'' @ [CHR 0x22, nl]]"
  unfolding example_maf_lines by (simp add: tab_def nl_def)

lemma example_maf_text:
  "maf_text example_maf =
     ''Hugo_Symbol'' @ [tab] @ ''Note'' @ [nl] @ [nl] @
     ''TP53'' @ [tab, CHR 0x22] @ ''first'' @ [nl] @ [nl] @
     ''second'' @ [CHR 0x22, nl]"
  unfolding maf_text_def example_maf_kept by simp

lemma example_maf_text_lines:
  "py_lines (maf_text example_maf) =
     [''Hugo_Symbol'' @ [tab] @ ''Note'' @ [nl], [nl],
      ''TP53'' @ [tab, CHR 0x22] @ ''first'' @ [nl], [nl],
      ''second'' @ [CHR 0x22, nl]]"
  unfolding example_maf_text by code_simp

text \<open>
  C5. The claim is that \<open>read_maf_file\<close> parses exactly the lines whose first
  character is not \<open>#\<close>. At the file \<open>example_maf\<close> the code does not: the
  comment line is dropped, but the text handed to the parser has an empty line after
  each kept line but the last. It is not the text of the three kept lines; the quoted
  field that runs over two lines has an empty line in its middle; and a parser that
  makes one row of every line returns five rows where three lines were kept.
\<close>

theorem read_maf_file_parses_inserted_empty_lines:
  "filter (\<lambda>l. \<not> prefix ''#'' l) (py_lines example_maf) =
     [''Hugo_Symbol'' @ [tab] @ ''Note'' @ [nl],
      ''TP53'' @ [tab, CHR 0x22] @ ''first'' @ [nl],
      ''second'' @ [CHR 0x22, nl]] \<and>
   maf_text example_maf =
     ''Hugo_Symbol'' @ [tab] @ ''Note'' @ [nl] @ [nl] @
     ''TP53'' @ [tab, CHR 0x22] @ ''first'' @ [nl] @ [nl] @
     ''second'' @ [CHR 0x22, nl] \<and>
   maf_text example_maf \<noteq> concat (filter (\<lambda>l. \<not> prefix ''#'' l) (py_lines example_maf)) \<and>
   fst (read_maf_file line_reader ''base/I/S1/y.maf'' (Inr example_maf) empty_world) =
     Some [(''line'',
            [Str (''Hugo_Symbol'' @ [tab] @ ''Note'' @ [nl]), Str [nl],
             Str (''TP53'' @ [tab, CHR 0x22] @ ''first'' @ [nl]), Str [nl],
             Str (''second'' @ [CHR 0x22, nl])])]"
proof -
  have n: "maf_text example_maf \<noteq>
           concat (filter (\<lambda>l. \<not> prefix ''#'' l) (py_lines example_maf))"
    by (rule maf_text_not_the_kept_lines) (simp add: example_maf_kept)
  have r: "fst (read_maf_file line_reader ''base/I/S1/y.maf'' (Inr example_maf) empty_world) =
     Some [(''line'',
            [Str (''Hugo_Symbol'' @ [tab] @ ''Note'' @ [nl]), Str [nl],
             Str (''TP53'' @ [tab, CHR 0x22] @ ''first'' @ [nl]), Str [nl],
             Str (''second'' @ [CHR 0x22, nl])])]"
    by (simp add: read_maf_file_def line_reader_def example_maf_text_lines)
  from example_maf_kept example_maf_text n r show ?thesis by (intro conjI)
qed

text \<open>
  On a standard output that can print the diagnostic message, the readers return
  \<open>None\<close> exactly when opening or reading the file or parsing its text raised, and
  the parsed table otherwise; on failure one message is printed, on success none.
\<close>

lemma readers_None_iff_failure:
  "(fst (read_cnv_file read_csv file_path content w) = None \<longleftrightarrow>
      (\<exists>e. content = Inl e \<or> (\<exists>text. content = Inr text \<and> read_csv text = Inl e))) \<and>
   (fst (read_cnv_file read_csv file_path content w) = Some df \<longleftrightarrow>
      (\<exists>text. content = Inr text \<and> read_csv text = Inr df)) \<and>
   (fst (read_maf_file read_csv file_path content w) = None \<longleftrightarrow>
      (\<exists>e. content = Inl e \<or> (\<exists>text. content = Inr text \<and> read_csv (maf_text text) = Inl e))) \<and>
   (fst (read_maf_file read_csv file_path content w) = Some df \<longleftrightarrow>
      (\<exists>text. content = Inr text \<and> read_csv (maf_text text) = Inr df)) \<and>
   (fst (read_cnv_file read_csv file_path content w) = None \<longrightarrow>
      (\<exists>e. snd (read_cnv_file read_csv file_path content w) = print (FailedCNV file_path e) w)) \<and>
   (fst (read_cnv_file read_csv file_path content w) \<noteq> None \<longrightarrow>
      snd (read_cnv_file read_csv file_path content w) = w) \<and>
   (fst (read_maf_file read_csv file_path content w) = None \<longrightarrow>
      (\<exists>e. snd (read_maf_file read_csv file_path content w) = print (FailedMAF file_path e) w)) \<and>
   (fst (read_maf_file read_csv file_path content w) \<noteq> None \<longrightarrow>
      snd (read_maf_file read_csv file_path content w) = w)"
proof -
  have 1: "fst (read_cnv_file read_csv file_path content w) = None \<longleftrightarrow>
      (\<exists>e. content = Inl e \<or> (\<exists>text. content = Inr text \<and> read_csv text = Inl e))"
    by (cases content) (auto simp: read_cnv_file_def split: sum.splits)
  have 2: "fst (read_cnv_file read_csv file_path content w) = Some df \<longleftrightarrow>
      (\<exists>text. content = Inr text \<and> read_csv text = Inr df)"
    by (cases content) (auto simp: read_cnv_file_def split: sum.splits)
  have 3: "fst (read_maf_file read_csv file_path content w) = None \<longleftrightarrow>
      (\<exists>e. content = Inl e \<or> (\<exists>text. content = Inr text \<and> read_csv (maf_text text) = Inl e))"
    by (cases content) (auto simp: read_maf_file_def split: sum.splits)
  have 4: "fst (read_maf_file read_csv file_path content w) = Some df \<longleftrightarrow>
      (\<exists>text. content = Inr text \<and> read_csv (maf_text text) = Inr df)"
    by (cases content) (auto simp: read_maf_file_def split: sum.splits)
  have 5: "fst (read_cnv_file read_csv file_path content w) = None \<longrightarrow>
      (\<exists>e. snd (read_cnv_file read_csv file_path content w) = print (FailedCNV file_path e) w)"
    by (cases content) (auto simp: read_cnv_file_def split: sum.splits)
  have 6: "fst (read_cnv_file read_csv file_path content w) \<noteq> None \<longrightarrow>
      snd (read_cnv_file read_csv file_path content w) = w"
    by (cases content) (auto simp: read_cnv_file_def split: sum.splits)
  have 7: "fst (read_maf_file read_csv file_path content w) = None \<longrightarrow>
      (\<exists>e. snd (read_maf_file read_csv file_path content w) = print (FailedMAF file_path e) w)"
    by (cases content) (auto simp: read_maf_file_def split: sum.splits)
  have 8: "fst (read_maf_file read_csv file_path content w) \<noteq> None \<longrightarrow>
      snd (read_maf_file read_csv file_path content w) = w"
    by (cases content) (auto simp: read_maf_file_def split: sum.splits)
  from 1 2 3 4 5 6 7 8 show ?thesis by blast
qed

text \<open>
  The readers on a given standard output: they agree with the readers above when every
  message can be printed, and an exception leaves them exactly when the read failed
  and the diagnostic message of the handler cannot be printed.
\<close>

lemma readers_on_printing_stdout:
  assumes "\<forall>m. encodes m"
  shows "read_cnv_file_on encodes read_csv file_path content w =
           Inr (read_cnv_file read_csv file_path content w)"
    and "read_maf_file_on encodes read_csv file_path content w =
           Inr (read_maf_file read_csv file_path content w)"
  using assms
  by (simp_all add: read_cnv_file_on_def read_cnv_file_def read_maf_file_on_def
        read_maf_file_def print_on_def split: sum.splits)

lemma read_cnv_file_on_raises_iff:
  "(\<exists>raised. read_cnv_file_on encodes read_csv file_path content w = Inl raised) \<longleftrightarrow>
     (\<exists>e. (content = Inl e \<or> (\<exists>body. content = Inr body \<and> read_csv body = Inl e)) \<and>
          \<not> encodes (FailedCNV file_path e))"
  by (cases content) (auto simp: read_cnv_file_on_def print_on_def split: sum.splits)

lemma read_maf_file_on_raises_iff:
  "(\<exists>raised. read_maf_file_on encodes read_csv file_path content w = Inl raised) \<longleftrightarrow>
     (\<exists>e. (content = Inl e \<or>
           (\<exists>body. content = Inr body \<and> read_csv (maf_text body) = Inl e)) \<and>
          \<not> encodes (FailedMAF file_path e))"
  by (cases content) (auto simp: read_maf_file_on_def print_on_def split: sum.splits)

text \<open>
  C7. The claim is that no exception leaves \<open>read_cnv_file\<close> and
  \<open>read_maf_file\<close>. On a standard output with an ASCII encoding it does: the read
  of a missing CNV file fails, the handler prints its message, which begins with a
  symbol outside ASCII, the \<^verbatim>\<open>print\<close> raises \<^verbatim>\<open>UnicodeEncodeError\<close>, and that
  exception leaves the reader instead of the value \<open>None\<close>; the same for a mutation
  file that does not parse.
\<close>

theorem readers_raise_when_the_message_cannot_be_printed:
  "read_cnv_file_on ascii_stdout example_reader ''base/I/S1/x.Copy_Number_Variation.tsv''
       (Inl (FileError ''No such file or directory'')) empty_world =
     Inl (UnicodeEncodeError ''codec can't encode character'') \<and>
   read_maf_file_on ascii_stdout example_reader ''base/I/S1/y.maf''
       (Inr ''not a table'') empty_world =
     Inl (UnicodeEncodeError ''codec can't encode character'')"
proof -
  have m: "maf_text ''not a table'' = ''not a table''"
    by (simp add: maf_text_def nl_def)
  have p: "example_reader ''not a table'' = Inl (ParseError ''not a table'')"
    by (simp add: example_reader_def)
  show ?thesis
    by (simp add: read_cnv_file_on_def read_maf_file_on_def print_on_def ascii_stdout_def m p)
qed

section \<open>Properties of the stage processor\<close>

lemma lower_Nil_iff: "lower s = [] \<longleftrightarrow> s = []"
  by (simp add: lower_def)

lemma first_segment_mean_nonempty: "first_segment_mean cols = Some c \<Longrightarrow> c \<noteq> []"
proof (induction cols)
  case Nil
  then show ?case by simp
next
  case (Cons a cols)
  show ?case
  proof (cases "is_segment_mean_name a")
    case True
    with Cons.prems have "c = a" by simp
    moreover from True have "lower a \<noteq> []" by (auto simp: is_segment_mean_name_def)
    ultimately show ?thesis by (simp add: lower_Nil_iff)
  next
    case False
    with Cons show ?thesis by simp
  qed
qed

lemma get_segment_mean_column_nonempty:
  "get_segment_mean_column df = Some c \<Longrightarrow> c \<noteq> []"
  unfolding get_segment_mean_column_def by (rule first_segment_mean_nonempty)

lemma first_segment_mean_in_set: "first_segment_mean cols = Some c \<Longrightarrow> c \<in> set cols"
  by (induction cols) (auto split: if_splits)

lemma get_segment_mean_column_present:
  "get_segment_mean_column df = Some c \<Longrightarrow> \<exists>cells. map_of df c = Some cells"
proof -
  assume "get_segment_mean_column df = Some c"
  then have "c \<in> fst ` set df"
    unfolding get_segment_mean_column_def by (auto dest: first_segment_mean_in_set)
  then have "map_of df c \<noteq> None" by (simp add: map_of_eq_None_iff)
  then show ?thesis by auto
qed

subsection \<open>One file\<close>

lemma process_file_data:
  "fst (process_file read_csv sample_path (sd, w) fe) =
     sd\<lparr>cnv_segment_means := cnv_segment_means sd @ cnv_values read_csv fe,
        snp_data := snp_data sd @ maf_tables read_csv fe\<rparr>"
proof (cases fe)
  case (Pair fname content)
  show ?thesis
  proof (cases "str_contains ''Copy_Number_Variation'' fname")
    case True
    then have m: "maf_tables read_csv fe = []"
      by (simp add: maf_tables_def maf_table_def Pair)
    show ?thesis
    proof (cases content)
      case (Inl e)
      with True Pair m show ?thesis
        by (simp add: process_file_def read_cnv_file_def cnv_values_def cnv_column_def)
    next
      case (Inr body)
      show ?thesis
      proof (cases "read_csv body")
        case (Inl e)
        with True Pair m Inr show ?thesis
          by (simp add: process_file_def read_cnv_file_def cnv_values_def cnv_column_def)
      next
        case df: (Inr df)
        show ?thesis
        proof (cases "get_segment_mean_column df")
          case None
          with True Pair m Inr df show ?thesis
            by (simp add: process_file_def read_cnv_file_def cnv_values_def cnv_column_def)
        next
          case (Some col)
          then have "col \<noteq> []" by (rule get_segment_mean_column_nonempty)
          with True Pair m Inr df Some show ?thesis
            by (simp add: process_file_def read_cnv_file_def cnv_values_def cnv_column_def)
        qed
      qed
    qed
  next
    case False
    then have c: "cnv_values read_csv fe = []"
      by (simp add: cnv_values_def cnv_column_def Pair)
    show ?thesis
    proof (cases "str_contains ''Simple_Nucleotide_Variation'' fname \<or> suffix ''.maf'' fname")
      case maf: True
      show ?thesis
      proof (cases content)
        case (Inl e)
        with False maf Pair c show ?thesis
          by (simp add: process_file_def read_maf_file_def maf_tables_def maf_table_def)
      next
        case (Inr body)
        show ?thesis
        proof (cases "read_csv (maf_text body)")
          case (Inl e)
          with False maf Pair c Inr show ?thesis
            by (simp add: process_file_def read_maf_file_def maf_tables_def maf_table_def)
        next
          case df: (Inr df)
          with False maf Pair c Inr show ?thesis
            by (simp add: process_file_def read_maf_file_def maf_tables_def maf_table_def)
        qed
      qed
    next
      case other: False
      with False Pair c show ?thesis
        by (simp add: process_file_def maf_tables_def maf_table_def)
    qed
  qed
qed

lemma ov_process_file_data:
  "fst (ov_process_file read_csv sample_folder sample_path (sd, w) fe) =
     sd\<lparr>cnv_segment_means := cnv_segment_means sd @ cnv_values read_csv fe,
        snp_data := snp_data sd @ maf_tables read_csv fe,
        cnv_segment_means_by_sample :=
          by_sample_step (cnv_column read_csv) sample_folder (cnv_segment_means_by_sample sd) fe,
        snp_data_by_sample :=
          by_sample_step (maf_table_list read_csv) sample_folder (snp_data_by_sample sd) fe\<rparr>"
proof (cases fe)
  case (Pair fname content)
  show ?thesis
  proof (cases "str_contains ''Copy_Number_Variation'' fname")
    case True
    then have m: "maf_tables read_csv fe = []" "maf_table_list read_csv fe = None"
      by (simp_all add: maf_tables_def maf_table_list_def maf_table_def Pair)
    show ?thesis
    proof (cases content)
      case (Inl e)
      with True Pair m show ?thesis
        by (simp add: ov_process_file_def read_cnv_file_def cnv_values_def cnv_column_def
              by_sample_step_def Let_def)
    next
      case (Inr body)
      show ?thesis
      proof (cases "read_csv body")
        case (Inl e)
        with True Pair m Inr show ?thesis
          by (simp add: ov_process_file_def read_cnv_file_def cnv_values_def cnv_column_def
                by_sample_step_def Let_def)
      next
        case df: (Inr df)
        show ?thesis
        proof (cases "get_segment_mean_column df")
          case None
          with True Pair m Inr df show ?thesis
            by (simp add: ov_process_file_def read_cnv_file_def cnv_values_def cnv_column_def
                  by_sample_step_def Let_def)
        next
          case (Some col)
          then have "col \<noteq> []" by (rule get_segment_mean_column_nonempty)
          with True Pair m Inr df Some show ?thesis
            by (simp add: ov_process_file_def read_cnv_file_def cnv_values_def cnv_column_def
                  by_sample_step_def Let_def)
        qed
      qed
    qed
  next
    case False
    then have c: "cnv_values read_csv fe = []" "cnv_column read_csv fe = None"
      by (simp_all add: cnv_values_def cnv_column_def Pair)
    show ?thesis
    proof (cases "str_contains ''Simple_Nucleotide_Variation'' fname \<or> suffix ''.maf'' fname")
      case maf: True
      show ?thesis
      proof (cases content)
        case (Inl e)
        with False maf Pair c show ?thesis
          by (simp add: ov_process_file_def read_maf_file_def maf_tables_def maf_table_def
                maf_table_list_def by_sample_step_def Let_def)
      next
        case (Inr body)
        show ?thesis
        proof (cases "read_csv (maf_text body)")
          case (Inl e)
          with False maf Pair c Inr show ?thesis
            by (simp add: ov_process_file_def read_maf_file_def maf_tables_def maf_table_def
                  maf_table_list_def by_sample_step_def Let_def)
        next
          case df: (Inr df)
          with False maf Pair c Inr show ?thesis
            by (simp add: ov_process_file_def read_maf_file_def maf_tables_def maf_table_def
                  maf_table_list_def by_sample_step_def Let_def)
        qed
      qed
    next
      case other: False
      with False Pair c show ?thesis
        by (simp add: ov_process_file_def maf_tables_def maf_table_def maf_table_list_def
              by_sample_step_def Let_def)
    qed
  qed
qed

subsection \<open>The files of one sample\<close>

lemma process_files_data:
  "fst (foldl (process_file read_csv sample_path) (sd, w) files) =
     sd\<lparr>cnv_segment_means := cnv_segment_means sd @ concat (map (cnv_values read_csv) files),
        snp_data := snp_data sd @ concat (map (maf_tables read_csv) files)\<rparr>"
proof (induction files arbitrary: sd w)
  case Nil
  show ?case by simp
next
  case (Cons fe files)
  obtain sd' w' where s: "process_file read_csv sample_path (sd, w) fe = (sd', w')"
    by (cases "process_file read_csv sample_path (sd, w) fe") auto
  have sd': "sd' = sd\<lparr>cnv_segment_means := cnv_segment_means sd @ cnv_values read_csv fe,
        snp_data := snp_data sd @ maf_tables read_csv fe\<rparr>"
    using process_file_data[of read_csv sample_path sd w fe] s by simp
  show ?case
    by (simp add: s Cons.IH) (simp add: sd')
qed

lemma ov_process_files_data:
  "fst (foldl (ov_process_file read_csv sample_folder sample_path) (sd, w) files) =
     sd\<lparr>cnv_segment_means := cnv_segment_means sd @ concat (map (cnv_values read_csv) files),
        snp_data := snp_data sd @ concat (map (maf_tables read_csv) files),
        cnv_segment_means_by_sample :=
          foldl (by_sample_step (cnv_column read_csv) sample_folder)
            (cnv_segment_means_by_sample sd) files,
        snp_data_by_sample :=
          foldl (by_sample_step (maf_table_list read_csv) sample_folder)
            (snp_data_by_sample sd) files\<rparr>"
proof (induction files arbitrary: sd w)
  case Nil
  show ?case by simp
next
  case (Cons fe files)
  obtain sd' w' where s:
    "ov_process_file read_csv sample_folder sample_path (sd, w) fe = (sd', w')"
    by (cases "ov_process_file read_csv sample_folder sample_path (sd, w) fe") auto
  have sd': "sd' = sd\<lparr>cnv_segment_means := cnv_segment_means sd @ cnv_values read_csv fe,
        snp_data := snp_data sd @ maf_tables read_csv fe,
        cnv_segment_means_by_sample :=
          by_sample_step (cnv_column read_csv) sample_folder (cnv_segment_means_by_sample sd) fe,
        snp_data_by_sample :=
          by_sample_step (maf_table_list read_csv) sample_folder (snp_data_by_sample sd) fe\<rparr>"
    using ov_process_file_data[of read_csv sample_folder sample_path sd w fe] s by simp
  show ?case
    by (simp add: s Cons.IH) (simp add: sd')
qed

subsection \<open>The entries of a stage directory\<close>

lemma sample_files_Cons:
  "sample_files ((sample_folder, entry) # listing) =
     (case entry of NotADirectory \<Rightarrow> [] | Directory files \<Rightarrow> files) @ sample_files listing"
  by (simp add: sample_files_def)

lemma process_samples_data:
  "fst (foldl (process_sample read_csv stage_folder) (sd, w) listing) =
     sd\<lparr>cnv_segment_means :=
          cnv_segment_means sd @ concat (map (cnv_values read_csv) (sample_files listing)),
        snp_data := snp_data sd @ concat (map (maf_tables read_csv) (sample_files listing))\<rparr>"
proof (induction listing arbitrary: sd w)
  case Nil
  show ?case by (simp add: sample_files_def)
next
  case (Cons e listing)
  obtain sample_folder entry where e: "e = (sample_folder, entry)" by (cases e) auto
  obtain sd' w' where s: "process_sample read_csv stage_folder (sd, w) e = (sd', w')"
    by (cases "process_sample read_csv stage_folder (sd, w) e") auto
  have sd': "sd' = sd\<lparr>cnv_segment_means := cnv_segment_means sd @
          concat (map (cnv_values read_csv) (sample_files [e])),
        snp_data := snp_data sd @ concat (map (maf_tables read_csv) (sample_files [e]))\<rparr>"
  proof (cases entry)
    case NotADirectory
    with s e show ?thesis by (simp add: process_sample_def sample_files_def)
  next
    case (Directory files)
    with s e process_files_data[of read_csv "path_join stage_folder sample_folder" sd w files]
    show ?thesis by (simp add: process_sample_def sample_files_def)
  qed
  have sf: "sample_files (e # listing) = sample_files [e] @ sample_files listing"
    by (simp add: sample_files_def)
  show ?case
    by (simp add: s Cons.IH) (simp add: sd' sf)
qed

lemma ov_process_samples_data:
  "fst (foldl (ov_process_sample read_csv stage_folder) (sd, w) listing) =
     sd\<lparr>cnv_segment_means :=
          cnv_segment_means sd @ concat (map (cnv_values read_csv) (sample_files listing)),
        snp_data := snp_data sd @ concat (map (maf_tables read_csv) (sample_files listing)),
        cnv_segment_means_by_sample :=
          foldl (by_sample_entry (cnv_column read_csv)) (cnv_segment_means_by_sample sd) listing,
        snp_data_by_sample :=
          foldl (by_sample_entry (maf_table_list read_csv)) (snp_data_by_sample sd) listing\<rparr>"
proof (induction listing arbitrary: sd w)
  case Nil
  show ?case by (simp add: sample_files_def)
next
  case (Cons e listing)
  obtain sample_folder entry where e: "e = (sample_folder, entry)" by (cases e) auto
  obtain sd' w' where s: "ov_process_sample read_csv stage_folder (sd, w) e = (sd', w')"
    by (cases "ov_process_sample read_csv stage_folder (sd, w) e") auto
  have sd': "sd' = sd\<lparr>cnv_segment_means := cnv_segment_means sd @
          concat (map (cnv_values read_csv) (sample_files [e])),
        snp_data := snp_data sd @ concat (map (maf_tables read_csv) (sample_files [e])),
        cnv_segment_means_by_sample :=
          by_sample_entry (cnv_column read_csv) (cnv_segment_means_by_sample sd) e,
        snp_data_by_sample :=
          by_sample_entry (maf_table_list read_csv) (snp_data_by_sample sd) e\<rparr>"
  proof (cases entry)
    case NotADirectory
    with s e show ?thesis
      by (simp add: ov_process_sample_def sample_files_def by_sample_entry_def)
  next
    case (Directory files)
    with s e ov_process_files_data[of read_csv sample_folder
        "path_join stage_folder sample_folder" sd "print (ProcessingSample sample_folder) w" files]
    show ?thesis
      by (simp add: ov_process_sample_def sample_files_def by_sample_entry_def)
  qed
  have sf: "sample_files (e # listing) = sample_files [e] @ sample_files listing"
    by (simp add: sample_files_def)
  show ?case
    by (simp add: s Cons.IH) (simp add: sd' sf)
qed

lemma process_stage_data:
  "fst (process_stage read_csv stage stage_folder listing w) =
     \<lparr>cnv_segment_means = concat (map (cnv_values read_csv) (sample_files listing)),
      snp_data = concat (map (maf_tables read_csv) (sample_files listing))\<rparr>"
  unfolding process_stage_def by (simp add: process_samples_data)

lemma ov_process_stage_data:
  "fst (ov_process_stage read_csv stage stage_folder listing w) =
     \<lparr>cnv_segment_means = concat (map (cnv_values read_csv) (sample_files listing)),
      snp_data = concat (map (maf_tables read_csv) (sample_files listing)),
      cnv_segment_means_by_sample = foldl (by_sample_entry (cnv_column read_csv)) [] listing,
      snp_data_by_sample = foldl (by_sample_entry (maf_table_list read_csv)) [] listing\<rparr>"
  unfolding ov_process_stage_def by (simp add: ov_process_samples_data)

subsection \<open>Accumulated segment means\<close>

lemma concat_cnv_values:
  "concat (map (cnv_values read_csv) fs) = concat (List.map_filter (cnv_column read_csv) fs)"
  by (induction fs) (auto simp: cnv_values_def map_filter_simps split: option.splits)

lemma mset_values_sample_files:
  "mset (concat (map (cnv_values read_csv) (sample_files listing))) =
     \<Sum>\<^sub># (image_mset (bag_values read_csv) (stage_bag listing))"
proof (induction listing)
  case Nil
  show ?case by (simp add: sample_files_def stage_bag_def)
next
  case (Cons e listing)
  obtain sample_folder entry where e: "e = (sample_folder, entry)" by (cases e) auto
  have sf: "sample_files (e # listing) = sample_files [e] @ sample_files listing"
    by (simp add: sample_files_def)
  have one: "mset (concat (map (cnv_values read_csv) (sample_files [e]))) =
             bag_values read_csv (entry_bag e)"
  proof (cases entry)
    case NotADirectory
    with e show ?thesis by (simp add: sample_files_def bag_values_def entry_bag_def)
  next
    case (Directory files)
    have "mset (concat (map (cnv_values read_csv) files)) =
          \<Sum>\<^sub># (image_mset (\<lambda>fe. mset (cnv_values read_csv fe)) (mset files))"
      by (induction files) auto
    with Directory e show ?thesis by (simp add: sample_files_def bag_values_def entry_bag_def)
  qed
  show ?case
    using Cons.IH one by (simp add: sf stage_bag_def)
qed

text \<open>
  C4. For every stage directory, the stage-wide segment-mean sequence that
  \<open>process_stage\<close> produces (in both variants) has as its length the sum of the sizes
  of the resolved segment-mean columns of the successfully read CNV files of the
  sample directories; and for every other enumeration order of the samples and of the
  files within the samples, the multiset of the accumulated values is the same.
\<close>

theorem process_stage_segment_means_order_independent:
  "length (cnv_segment_means (fst (process_stage read_csv stage stage_folder listing w))) =
     sum_list (map length (List.map_filter (cnv_column read_csv) (sample_files listing))) \<and>
   length (cnv_segment_means (fst (ov_process_stage read_csv stage stage_folder listing w))) =
     sum_list (map length (List.map_filter (cnv_column read_csv) (sample_files listing))) \<and>
   (\<forall>listing'. stage_bag listing' = stage_bag listing \<longrightarrow>
      mset (cnv_segment_means (fst (process_stage read_csv stage stage_folder listing' w))) =
      mset (cnv_segment_means (fst (process_stage read_csv stage stage_folder listing w))) \<and>
      mset (cnv_segment_means (fst (ov_process_stage read_csv stage stage_folder listing' w))) =
      mset (cnv_segment_means (fst (ov_process_stage read_csv stage stage_folder listing w))))"
proof -
  have a: "length (cnv_segment_means (fst (process_stage read_csv stage stage_folder listing w))) =
     sum_list (map length (List.map_filter (cnv_column read_csv) (sample_files listing)))"
    by (simp add: process_stage_data concat_cnv_values length_concat)
  have b: "length (cnv_segment_means (fst (ov_process_stage read_csv stage stage_folder listing w))) =
     sum_list (map length (List.map_filter (cnv_column read_csv) (sample_files listing)))"
    by (simp add: ov_process_stage_data concat_cnv_values length_concat)
  have c: "\<forall>listing'. stage_bag listing' = stage_bag listing \<longrightarrow>
      mset (cnv_segment_means (fst (process_stage read_csv stage stage_folder listing' w))) =
      mset (cnv_segment_means (fst (process_stage read_csv stage stage_folder listing w))) \<and>
      mset (cnv_segment_means (fst (ov_process_stage read_csv stage stage_folder listing' w))) =
      mset (cnv_segment_means (fst (ov_process_stage read_csv stage stage_folder listing w)))"
    by (simp add: process_stage_data ov_process_stage_data mset_values_sample_files)
  from a b c show ?thesis by (intro conjI)
qed

lemma example_listing_same_bag: "stage_bag example_listing_reordered = stage_bag example_listing"
proof -
  have 1: "{#(''Copy_Number_Variation.maf'', Inr ''c'' :: py_exception + string),
             (''y.maf'', Inr ''m''), (''x.Copy_Number_Variation.tsv'', Inr ''a'')#} =
           {#(''x.Copy_Number_Variation.tsv'', Inr ''a''), (''y.maf'', Inr ''m''),
             (''Copy_Number_Variation.maf'', Inr ''c'')#}"
    by simp
  have 2: "{#(''broken.maf'', Inl (FileError ''denied'') :: py_exception + string),
             (''Copy_Number_Variation_2'', Inr ''b'')#} =
           {#(''Copy_Number_Variation_2'', Inr ''b''),
             (''broken.maf'', Inl (FileError ''denied''))#}"
    by simp
  have L: "stage_bag example_listing =
     {#(''S1'', Some {#(''x.Copy_Number_Variation.tsv'', Inr ''a''), (''y.maf'', Inr ''m''),
             (''Copy_Number_Variation.maf'', Inr ''c'')#}),
       (''notes.txt'', None),
       (''S2'', Some {#(''Copy_Number_Variation_2'', Inr ''b''),
             (''broken.maf'', Inl (FileError ''denied''))#})#}"
    by (simp add: example_listing_def stage_bag_def entry_bag_def)
  have L': "stage_bag example_listing_reordered =
     {#(''S2'', Some {#(''broken.maf'', Inl (FileError ''denied'')),
             (''Copy_Number_Variation_2'', Inr ''b'')#}),
       (''S1'', Some {#(''Copy_Number_Variation.maf'', Inr ''c''),
             (''y.maf'', Inr ''m''), (''x.Copy_Number_Variation.tsv'', Inr ''a'')#}),
       (''notes.txt'', None)#}"
    by (simp add: example_listing_reordered_def stage_bag_def entry_bag_def)
  show ?thesis
    unfolding L L' 1 2 by simp
qed

theorem process_stage_segment_means_order_independent_witness:
  "stage_bag example_listing_reordered = stage_bag example_listing \<and>
   length (cnv_segment_means
     (fst (process_stage example_reader ''I'' ''base/I'' example_listing empty_world))) = 3 \<and>
   length (cnv_segment_means
     (fst (ov_process_stage example_reader ''I'' ''base/I'' example_listing empty_world))) = 3 \<and>
   mset (cnv_segment_means
     (fst (process_stage example_reader ''I'' ''base/I'' example_listing_reordered empty_world))) =
   mset (cnv_segment_means
     (fst (process_stage example_reader ''I'' ''base/I'' example_listing empty_world))) \<and>
   mset (cnv_segment_means
     (fst (ov_process_stage example_reader ''I'' ''base/I'' example_listing_reordered empty_world))) =
   mset (cnv_segment_means
     (fst (ov_process_stage example_reader ''I'' ''base/I'' example_listing empty_world)))"
proof -
  note T = process_stage_segment_means_order_independent
    [of example_reader "''I''" "''base/I''" example_listing empty_world]
  note bag = example_listing_same_bag
  have cols: "List.map_filter (cnv_column example_reader) (sample_files example_listing) =
                [[Num 1, Num 2], [Num 3]]"
    unfolding example_reader_def example_listing_def by code_simp
  from T have "length (cnv_segment_means
      (fst (process_stage example_reader ''I'' ''base/I'' example_listing empty_world))) =
    sum_list (map length
      (List.map_filter (cnv_column example_reader) (sample_files example_listing)))"
    by (elim conjE)
  then have a: "length (cnv_segment_means
      (fst (process_stage example_reader ''I'' ''base/I'' example_listing empty_world))) = 3"
    unfolding cols by simp
  from T have "length (cnv_segment_means
      (fst (ov_process_stage example_reader ''I'' ''base/I'' example_listing empty_world))) =
    sum_list (map length
      (List.map_filter (cnv_column example_reader) (sample_files example_listing)))"
    by (elim conjE)
  then have b: "length (cnv_segment_means
      (fst (ov_process_stage example_reader ''I'' ''base/I'' example_listing empty_world))) = 3"
    unfolding cols by simp
  from T have "\<forall>listing'. stage_bag listing' = stage_bag example_listing \<longrightarrow>
      mset (cnv_segment_means
        (fst (process_stage example_reader ''I'' ''base/I'' listing' empty_world))) =
      mset (cnv_segment_means
        (fst (process_stage example_reader ''I'' ''base/I'' example_listing empty_world))) \<and>
      mset (cnv_segment_means
        (fst (ov_process_stage example_reader ''I'' ''base/I'' listing' empty_world))) =
      mset (cnv_segment_means
        (fst (ov_process_stage example_reader ''I'' ''base/I'' example_listing empty_world)))"
    by (elim conjE)
  with bag have c: "mset (cnv_segment_means
        (fst (process_stage example_reader ''I'' ''base/I'' example_listing_reordered empty_world))) =
      mset (cnv_segment_means
        (fst (process_stage example_reader ''I'' ''base/I'' example_listing empty_world))) \<and>
      mset (cnv_segment_means
        (fst (ov_process_stage example_reader ''I'' ''base/I'' example_listing_reordered empty_world))) =
      mset (cnv_segment_means
        (fst (ov_process_stage example_reader ''I'' ''base/I'' example_listing empty_world)))"
    by (elim allE[of _ example_listing_reordered] impE)
  from bag a b c show ?thesis by (intro conjI) (elim conjE, assumption)+
qed

subsection \<open>Files named as CNV files\<close>

lemma maf_table_cnv_named:
  "str_contains ''Copy_Number_Variation'' fname \<Longrightarrow> maf_table read_csv (fname, content) = None"
  by (simp add: maf_table_def)

lemma sample_files_drop_cnv_named:
  "sample_files (drop_cnv_named listing) =
     filter (\<lambda>(fname, content). \<not> str_contains ''Copy_Number_Variation'' fname)
       (sample_files listing)"
proof (induction listing)
  case Nil
  show ?case by (simp add: sample_files_def drop_cnv_named_def)
next
  case (Cons e listing)
  obtain sample_folder entry where e: "e = (sample_folder, entry)" by (cases e) auto
  have d: "drop_cnv_named (e # listing) = hd (drop_cnv_named [e]) # drop_cnv_named listing"
    by (simp add: drop_cnv_named_def)
  show ?case
    using Cons.IH unfolding d e
    by (cases entry) (simp_all add: sample_files_Cons drop_cnv_named_def)
qed

lemma concat_maf_tables_filter:
  "concat (map (maf_tables read_csv)
     (filter (\<lambda>(fname, content). \<not> str_contains ''Copy_Number_Variation'' fname) fs)) =
   concat (map (maf_tables read_csv) fs)"
  by (induction fs) (auto simp: maf_tables_def maf_table_cnv_named)

lemma by_sample_files_filter:
  "foldl (by_sample_step (maf_table_list read_csv) k) d
     (filter (\<lambda>(fname, content). \<not> str_contains ''Copy_Number_Variation'' fname) fs) =
   foldl (by_sample_step (maf_table_list read_csv) k) d fs"
  by (induction fs arbitrary: d)
     (auto simp: by_sample_step_def maf_table_list_def maf_table_cnv_named)

lemma by_sample_entries_drop_cnv_named:
  "foldl (by_sample_entry (maf_table_list read_csv)) d (drop_cnv_named listing) =
   foldl (by_sample_entry (maf_table_list read_csv)) d listing"
proof (induction listing arbitrary: d)
  case Nil
  show ?case by (simp add: drop_cnv_named_def)
next
  case (Cons e listing)
  obtain sample_folder entry where e: "e = (sample_folder, entry)" by (cases e) auto
  have d: "drop_cnv_named (e # listing) = hd (drop_cnv_named [e]) # drop_cnv_named listing"
    by (simp add: drop_cnv_named_def)
  have one: "by_sample_entry (maf_table_list read_csv) d (hd (drop_cnv_named [e])) =
             by_sample_entry (maf_table_list read_csv) d e"
    unfolding e
    by (cases entry) (simp_all add: drop_cnv_named_def by_sample_entry_def by_sample_files_filter)
  show ?case
    unfolding d by (simp add: one Cons.IH)
qed

text \<open>
  C10. In both variants, a file whose name contains \<open>Copy_Number_Variation\<close> is
  treated as a CNV file only, whatever else its name contains or ends in: processing
  it leaves the mutation-table sequences as they are, and a whole stage yields the
  same mutation-table sequences as the stage without the files so named.
\<close>

theorem cnv_named_file_is_never_a_mutation_file:
  "(str_contains ''Copy_Number_Variation'' fname \<longrightarrow>
      snp_data (fst (process_file read_csv sample_path (sd, w) (fname, content))) = snp_data sd \<and>
      snp_data (fst (ov_process_file read_csv sample_folder sample_path (osd, w) (fname, content)))
        = snp_data osd \<and>
      snp_data_by_sample
        (fst (ov_process_file read_csv sample_folder sample_path (osd, w) (fname, content)))
        = snp_data_by_sample osd) \<and>
   snp_data (fst (process_stage read_csv stage stage_folder listing w)) =
     snp_data (fst (process_stage read_csv stage stage_folder (drop_cnv_named listing) w)) \<and>
   snp_data (fst (ov_process_stage read_csv stage stage_folder listing w)) =
     snp_data (fst (ov_process_stage read_csv stage stage_folder (drop_cnv_named listing) w)) \<and>
   snp_data_by_sample (fst (ov_process_stage read_csv stage stage_folder listing w)) =
     snp_data_by_sample
       (fst (ov_process_stage read_csv stage stage_folder (drop_cnv_named listing) w))"
proof -
  have a: "str_contains ''Copy_Number_Variation'' fname \<longrightarrow>
      snp_data (fst (process_file read_csv sample_path (sd, w) (fname, content))) = snp_data sd \<and>
      snp_data (fst (ov_process_file read_csv sample_folder sample_path (osd, w) (fname, content)))
        = snp_data osd \<and>
      snp_data_by_sample
        (fst (ov_process_file read_csv sample_folder sample_path (osd, w) (fname, content)))
        = snp_data_by_sample osd"
    by (simp add: process_file_data ov_process_file_data maf_tables_def maf_table_list_def
          maf_table_cnv_named by_sample_step_def)
  have b: "snp_data (fst (process_stage read_csv stage stage_folder listing w)) =
     snp_data (fst (process_stage read_csv stage stage_folder (drop_cnv_named listing) w))"
    by (simp add: process_stage_data sample_files_drop_cnv_named concat_maf_tables_filter)
  have c: "snp_data (fst (ov_process_stage read_csv stage stage_folder listing w)) =
     snp_data (fst (ov_process_stage read_csv stage stage_folder (drop_cnv_named listing) w))"
    by (simp add: ov_process_stage_data sample_files_drop_cnv_named concat_maf_tables_filter)
  have d: "snp_data_by_sample (fst (ov_process_stage read_csv stage stage_folder listing w)) =
     snp_data_by_sample
       (fst (ov_process_stage read_csv stage stage_folder (drop_cnv_named listing) w))"
    by (simp add: ov_process_stage_data by_sample_entries_drop_cnv_named)
  from a b c d show ?thesis by (intro conjI)
qed

theorem cnv_named_file_is_never_a_mutation_file_witness:
  "str_contains ''Copy_Number_Variation''
      ''Simple_Nucleotide_Variation.Copy_Number_Variation.maf'' \<and>
   snp_data (fst (process_file example_reader ''base/I/S1''
      (\<lparr>cnv_segment_means = [], snp_data = []\<rparr>, empty_world)
      (''Simple_Nucleotide_Variation.Copy_Number_Variation.maf'', Inr ''m''))) = [] \<and>
   snp_data (fst (ov_process_file example_reader ''S1'' ''base/I/S1''
      (\<lparr>cnv_segment_means = [], snp_data = [],
        cnv_segment_means_by_sample = [], snp_data_by_sample = []\<rparr>, empty_world)
      (''Simple_Nucleotide_Variation.Copy_Number_Variation.maf'', Inr ''m''))) = [] \<and>
   snp_data_by_sample (fst (ov_process_file example_reader ''S1'' ''base/I/S1''
      (\<lparr>cnv_segment_means = [], snp_data = [],
        cnv_segment_means_by_sample = [], snp_data_by_sample = []\<rparr>, empty_world)
      (''Simple_Nucleotide_Variation.Copy_Number_Variation.maf'', Inr ''m''))) = []"
proof -
  let ?n = "''Simple_Nucleotide_Variation.Copy_Number_Variation.maf''"
  let ?sd = "\<lparr>cnv_segment_means = [], snp_data = []\<rparr>"
  let ?osd = "\<lparr>cnv_segment_means = [], snp_data = [],
        cnv_segment_means_by_sample = [], snp_data_by_sample = []\<rparr>"
  have n: "str_contains ''Copy_Number_Variation'' ?n"
    by code_simp
  note T = cnv_named_file_is_never_a_mutation_file
    [of ?n example_reader "''base/I/S1''" ?sd empty_world "Inr ''m''" "''S1''" ?osd]
  from T have "str_contains ''Copy_Number_Variation'' ?n \<longrightarrow>
      snp_data (fst (process_file example_reader ''base/I/S1'' (?sd, empty_world)
        (?n, Inr ''m''))) = snp_data ?sd \<and>
      snp_data (fst (ov_process_file example_reader ''S1'' ''base/I/S1'' (?osd, empty_world)
        (?n, Inr ''m''))) = snp_data ?osd \<and>
      snp_data_by_sample (fst (ov_process_file example_reader ''S1'' ''base/I/S1''
        (?osd, empty_world) (?n, Inr ''m''))) = snp_data_by_sample ?osd"
    by (rule conjunct1)
  with n have "snp_data (fst (process_file example_reader ''base/I/S1'' (?sd, empty_world)
        (?n, Inr ''m''))) = snp_data ?sd \<and>
      snp_data (fst (ov_process_file example_reader ''S1'' ''base/I/S1'' (?osd, empty_world)
        (?n, Inr ''m''))) = snp_data ?osd \<and>
      snp_data_by_sample (fst (ov_process_file example_reader ''S1'' ''base/I/S1''
        (?osd, empty_world) (?n, Inr ''m''))) = snp_data_by_sample ?osd"
    by (elim impE)
  then have "snp_data (fst (process_file example_reader ''base/I/S1'' (?sd, empty_world)
        (?n, Inr ''m''))) = [] \<and>
      snp_data (fst (ov_process_file example_reader ''S1'' ''base/I/S1'' (?osd, empty_world)
        (?n, Inr ''m''))) = [] \<and>
      snp_data_by_sample (fst (ov_process_file example_reader ''S1'' ''base/I/S1''
        (?osd, empty_world) (?n, Inr ''m''))) = []"
    by simp
  with n show ?thesis by (intro conjI) (elim conjE, assumption)+
qed

subsection \<open>A CNV file without a segment-mean column\<close>

lemma no_column_contributes_nothing:
  assumes "str_contains ''Copy_Number_Variation'' fname"
      and "read_csv body = Inr cnv_df"
      and "get_segment_mean_column cnv_df = None"
  shows "cnv_column read_csv (fname, Inr body) = None"
    and "cnv_values read_csv (fname, Inr body) = []"
    and "maf_table read_csv (fname, Inr body) = None"
    and "maf_tables read_csv (fname, Inr body) = []"
    and "maf_table_list read_csv (fname, Inr body) = None"
  using assms
  by (simp_all add: cnv_column_def cnv_values_def maf_table_def maf_tables_def maf_table_list_def)

lemma process_file_no_column:
  assumes "str_contains ''Copy_Number_Variation'' fname"
      and "read_csv body = Inr cnv_df"
      and "get_segment_mean_column cnv_df = None"
  shows "process_file read_csv sample_path s (fname, Inr body) = s"
  using assms by (cases s) (simp add: process_file_def read_cnv_file_def)

lemma ov_process_file_no_column:
  assumes "str_contains ''Copy_Number_Variation'' fname"
      and "read_csv body = Inr cnv_df"
      and "get_segment_mean_column cnv_df = None"
  shows "ov_process_file read_csv sample_folder sample_path (osd, w) (fname, Inr body) =
     (osd, w\<lparr>console := console w @ [NoSegmentMeanWarning (path_join sample_path fname)],
             failed_files_log := failed_files_log w @
               [path_join sample_path fname @ [tab] @ ''Missing Segment Mean column'' @ [nl]]\<rparr>)"
  using assms
  by (simp add: ov_process_file_def read_cnv_file_def Let_def log_failed_file_def print_def)

text \<open>
  C6. When a file named as a CNV file is read successfully and its table has no
  segment-mean column, the per-stage variant leaves the accumulators and the world
  (console and failure log) exactly as they were; the overall variant leaves the
  accumulators as they were, prints a warning and appends the line of the file path
  and the reason \<open>Missing Segment Mean column\<close> to the failure log. In both
  variants the remaining files of the sample are processed as if the file were not
  there: the per-stage run ends in the same state, the overall run in the same
  accumulators.
\<close>

theorem missing_segment_mean_column_is_skipped:
  "str_contains ''Copy_Number_Variation'' fname \<and> read_csv body = Inr cnv_df \<and>
   get_segment_mean_column cnv_df = None \<longrightarrow>
     process_file read_csv sample_path (sd, w) (fname, Inr body) = (sd, w) \<and>
     ov_process_file read_csv sample_folder sample_path (osd, w) (fname, Inr body) =
       (osd, w\<lparr>console := console w @ [NoSegmentMeanWarning (path_join sample_path fname)],
               failed_files_log := failed_files_log w @
                 [path_join sample_path fname @ [tab] @ ''Missing Segment Mean column'' @ [nl]]\<rparr>) \<and>
     foldl (process_file read_csv sample_path) (sd, w) (before @ (fname, Inr body) # after) =
       foldl (process_file read_csv sample_path) (sd, w) (before @ after) \<and>
     fst (foldl (ov_process_file read_csv sample_folder sample_path) (osd, w)
            (before @ (fname, Inr body) # after)) =
       fst (foldl (ov_process_file read_csv sample_folder sample_path) (osd, w) (before @ after))"
proof (intro impI, elim conjE)
  assume n: "str_contains ''Copy_Number_Variation'' fname"
     and r: "read_csv body = Inr cnv_df"
     and g: "get_segment_mean_column cnv_df = None"
  have a: "process_file read_csv sample_path (sd, w) (fname, Inr body) = (sd, w)"
    using n r g by (rule process_file_no_column)
  have b: "ov_process_file read_csv sample_folder sample_path (osd, w) (fname, Inr body) =
       (osd, w\<lparr>console := console w @ [NoSegmentMeanWarning (path_join sample_path fname)],
               failed_files_log := failed_files_log w @
                 [path_join sample_path fname @ [tab] @ ''Missing Segment Mean column'' @ [nl]]\<rparr>)"
    using n r g by (rule ov_process_file_no_column)
  have c: "foldl (process_file read_csv sample_path) (sd, w) (before @ (fname, Inr body) # after) =
       foldl (process_file read_csv sample_path) (sd, w) (before @ after)"
  proof -
    have step: "\<And>s. process_file read_csv sample_path s (fname, Inr body) = s"
      using n r g by (rule process_file_no_column)
    show ?thesis by (simp add: step)
  qed
  have d: "fst (foldl (ov_process_file read_csv sample_folder sample_path) (osd, w)
            (before @ (fname, Inr body) # after)) =
       fst (foldl (ov_process_file read_csv sample_folder sample_path) (osd, w) (before @ after))"
  proof -
    have none: "cnv_column read_csv (fname, Inr body) = None"
      "cnv_values read_csv (fname, Inr body) = []"
      "maf_tables read_csv (fname, Inr body) = []"
      "maf_table_list read_csv (fname, Inr body) = None"
      using n r g by (simp_all add: no_column_contributes_nothing)
    show ?thesis
      unfolding ov_process_files_data by (simp add: none by_sample_step_def)
  qed
  from a b c d show "process_file read_csv sample_path (sd, w) (fname, Inr body) = (sd, w) \<and>
     ov_process_file read_csv sample_folder sample_path (osd, w) (fname, Inr body) =
       (osd, w\<lparr>console := console w @ [NoSegmentMeanWarning (path_join sample_path fname)],
               failed_files_log := failed_files_log w @
                 [path_join sample_path fname @ [tab] @ ''Missing Segment Mean column'' @ [nl]]\<rparr>) \<and>
     foldl (process_file read_csv sample_path) (sd, w) (before @ (fname, Inr body) # after) =
       foldl (process_file read_csv sample_path) (sd, w) (before @ after) \<and>
     fst (foldl (ov_process_file read_csv sample_folder sample_path) (osd, w)
            (before @ (fname, Inr body) # after)) =
       fst (foldl (ov_process_file read_csv sample_folder sample_path) (osd, w) (before @ after))"
    by (intro conjI)
qed

theorem missing_segment_mean_column_is_skipped_witness:
  "str_contains ''Copy_Number_Variation'' ''Copy_Number_Variation.maf'' \<and>
   example_reader ''c'' = Inr [(''Chromosome'', [Str ''1''])] \<and>
   get_segment_mean_column [(''Chromosome'', [Str ''1''])] = None \<and>
   process_file example_reader ''base/I/S1''
       (\<lparr>cnv_segment_means = [], snp_data = []\<rparr>, empty_world)
       (''Copy_Number_Variation.maf'', Inr ''c'') =
     (\<lparr>cnv_segment_means = [], snp_data = []\<rparr>, empty_world) \<and>
   ov_process_file example_reader ''S1'' ''base/I/S1''
       (\<lparr>cnv_segment_means = [], snp_data = [],
         cnv_segment_means_by_sample = [], snp_data_by_sample = []\<rparr>, empty_world)
       (''Copy_Number_Variation.maf'', Inr ''c'') =
     (\<lparr>cnv_segment_means = [], snp_data = [],
       cnv_segment_means_by_sample = [], snp_data_by_sample = []\<rparr>,
      \<lparr>console = [NoSegmentMeanWarning ''base/I/S1/Copy_Number_Variation.maf''],
       failed_files_log =
         [''base/I/S1/Copy_Number_Variation.maf'' @ [tab] @
          ''Missing Segment Mean column'' @ [nl]]\<rparr>)"
proof -
  let ?n = "''Copy_Number_Variation.maf''"
  let ?df = "[(''Chromosome'', [Str ''1''])]"
  let ?sd = "\<lparr>cnv_segment_means = [], snp_data = []\<rparr>"
  let ?osd = "\<lparr>cnv_segment_means = [], snp_data = [],
        cnv_segment_means_by_sample = [], snp_data_by_sample = []\<rparr>"
  have n: "str_contains ''Copy_Number_Variation'' ?n"
    by code_simp
  have r: "example_reader ''c'' = Inr ?df"
    by (simp add: example_reader_def)
  have g: "get_segment_mean_column ?df = None"
    by (simp add: get_segment_mean_column_def is_segment_mean_name_def lower_Chromosome)
  have p: "path_join ''base/I/S1'' ?n = ''base/I/S1/Copy_Number_Variation.maf''"
    by code_simp
  note T = missing_segment_mean_column_is_skipped
    [of ?n example_reader "''c''" ?df "''base/I/S1''" ?sd empty_world "''S1''" ?osd "[]" "[]"]
  from n r g have "str_contains ''Copy_Number_Variation'' ?n \<and>
      example_reader ''c'' = Inr ?df \<and> get_segment_mean_column ?df = None"
    by (intro conjI)
  with T have c: "process_file example_reader ''base/I/S1'' (?sd, empty_world) (?n, Inr ''c'') =
      (?sd, empty_world) \<and>
     ov_process_file example_reader ''S1'' ''base/I/S1'' (?osd, empty_world) (?n, Inr ''c'') =
       (?osd, empty_world\<lparr>console := console empty_world @
                 [NoSegmentMeanWarning (path_join ''base/I/S1'' ?n)],
               failed_files_log := failed_files_log empty_world @
                 [path_join ''base/I/S1'' ?n @ [tab] @ ''Missing Segment Mean column'' @ [nl]]\<rparr>)"
    by blast
  have w: "empty_world\<lparr>console := console empty_world @
                 [NoSegmentMeanWarning (path_join ''base/I/S1'' ?n)],
               failed_files_log := failed_files_log empty_world @
                 [path_join ''base/I/S1'' ?n @ [tab] @ ''Missing Segment Mean column'' @ [nl]]\<rparr> =
      \<lparr>console = [NoSegmentMeanWarning ''base/I/S1/Copy_Number_Variation.maf''],
       failed_files_log =
         [''base/I/S1/Copy_Number_Variation.maf'' @ [tab] @
          ''Missing Segment Mean column'' @ [nl]]\<rparr>"
    unfolding p by (simp add: empty_world_def)
  from c have c1: "process_file example_reader ''base/I/S1'' (?sd, empty_world) (?n, Inr ''c'') =
      (?sd, empty_world)"
    by (rule conjunct1)
  from c have c2: "ov_process_file example_reader ''S1'' ''base/I/S1'' (?osd, empty_world)
      (?n, Inr ''c'') =
      (?osd, \<lparr>console = [NoSegmentMeanWarning ''base/I/S1/Copy_Number_Variation.maf''],
       failed_files_log =
         [''base/I/S1/Copy_Number_Variation.maf'' @ [tab] @
          ''Missing Segment Mean column'' @ [nl]]\<rparr>)"
    unfolding w by (rule conjunct2)
  from n r g c1 c2 show ?thesis by (intro conjI)
qed

section \<open>Properties of the summaries\<close>

subsection \<open>Descriptive statistics\<close>

lemma numeric_values_example:
  "numeric_values [Num 1, Num 2, Num 3, Num 4, Num 5] = [1, 2, 3, 4, 5]"
  by (simp add: numeric_values_def)

lemma sort_example: "sort [1, 2, 3, 4, 5 :: real] = [1, 2, 3, 4, 5]"
  by simp

lemma percentile_example: "percentile [1, 2, 3, 4, 5] (1/2) = 3"
  by (simp add: percentile_def Let_def)

lemma mean_example: "mean [1, 2, 3, 4, 5] = 3"
  by (simp add: mean_def)

lemma describe_example:
  "describe [Num 1, Num 2, Num 3, Num 4, Num 5] = describe_numeric [1, 2, 3, 4, 5]"
  by (simp add: describe_def numeric_values_example)

text \<open>
  C9. For the segment-mean values 1, 2, 3, 4, 5 and no mutation tables,
  \<open>create_stage_summary\<close> yields the single sheet \<open>CNV_Segment_Stats\<close> whose
  statistics report count 5, mean 3, minimum 1, maximum 5 and median (the 50th
  percentile) 3.
\<close>

theorem create_stage_summary_one_to_five:
  "\<exists>stats.
     create_stage_summary stage
       \<lparr>cnv_segment_means = [Num 1, Num 2, Num 3, Num 4, Num 5], snp_data = []\<rparr> =
       Inr [(''CNV_Segment_Stats'', StatsFrame ''Value'' stats)] \<and>
     map_of stats ''count'' = Some (Num 5) \<and>
     map_of stats ''mean'' = Some (Num 3) \<and>
     map_of stats ''min'' = Some (Num 1) \<and>
     map_of stats ''max'' = Some (Num 5) \<and>
     map_of stats ''50%'' = Some (Num 3)"
proof (intro exI conjI)
  show "create_stage_summary stage
       \<lparr>cnv_segment_means = [Num 1, Num 2, Num 3, Num 4, Num 5], snp_data = []\<rparr> =
       Inr [(''CNV_Segment_Stats'', StatsFrame ''Value'' (describe_numeric [1, 2, 3, 4, 5]))]"
    by (simp add: create_stage_summary_def describe_example)
  show "map_of (describe_numeric [1, 2, 3, 4, 5]) ''count'' = Some (Num 5)"
    by (simp add: describe_numeric_def)
  show "map_of (describe_numeric [1, 2, 3, 4, 5]) ''mean'' = Some (Num 3)"
    by (simp add: describe_numeric_def mean_example)
  show "map_of (describe_numeric [1, 2, 3, 4, 5]) ''min'' = Some (Num 1)"
    by (simp add: describe_numeric_def)
  show "map_of (describe_numeric [1, 2, 3, 4, 5]) ''max'' = Some (Num 5)"
    by (simp add: describe_numeric_def)
  show "map_of (describe_numeric [1, 2, 3, 4, 5]) ''50%'' = Some (Num 3)"
    by (simp add: describe_numeric_def percentile_example)
qed

theorem create_stage_summary_one_to_five_witness:
  "\<exists>stats.
     create_stage_summary ''StageI''
       \<lparr>cnv_segment_means = [Num 1, Num 2, Num 3, Num 4, Num 5], snp_data = []\<rparr> =
       Inr [(''CNV_Segment_Stats'', StatsFrame ''Value'' stats)] \<and>
     map_of stats ''count'' = Some (Num 5) \<and>
     map_of stats ''mean'' = Some (Num 3) \<and>
     map_of stats ''min'' = Some (Num 1) \<and>
     map_of stats ''max'' = Some (Num 5) \<and>
     map_of stats ''50%'' = Some (Num 3)"
  by (rule create_stage_summary_one_to_five[of "''StageI''"])

subsection \<open>Counts by value\<close>

lemma set_first_seen: "set (first_seen xs) = set xs"
  by (simp add: first_seen_def)

lemma distinct_first_seen: "distinct (first_seen xs)"
  by (simp add: first_seen_def)

lemma count_list_filter_NaN:
  "v \<noteq> NaN \<Longrightarrow> count_list (filter (\<lambda>v. v \<noteq> NaN) xs) v = count_list xs v"
  by (induction xs) auto

lemma set_value_counts:
  "set (value_counts xs) = (\<lambda>v. (v, count_list xs v)) ` {v \<in> set xs. v \<noteq> NaN}"
proof -
  have "set (value_counts xs) =
        (\<lambda>v. (v, count_list (filter (\<lambda>v. v \<noteq> NaN) xs) v)) ` {v \<in> set xs. v \<noteq> NaN}"
    by (simp add: value_counts_def Let_def set_first_seen)
  also have "\<dots> = (\<lambda>v. (v, count_list xs v)) ` {v \<in> set xs. v \<noteq> NaN}"
    by (rule image_cong) (simp_all add: count_list_filter_NaN)
  finally show ?thesis .
qed

lemma distinct_value_counts: "distinct (map fst (value_counts xs))"
proof -
  let ?vs = "filter (\<lambda>v. v \<noteq> NaN) xs"
  let ?ps = "map (\<lambda>v. (v, count_list ?vs v)) (first_seen ?vs)"
  have 1: "mset (value_counts xs) = mset ?ps"
    by (simp add: value_counts_def Let_def)
  have 2: "map fst ?ps = first_seen ?vs"
    by (simp add: comp_def)
  have "mset (map fst (value_counts xs)) = image_mset fst (mset (value_counts xs))"
    by (rule mset_map)
  also have "\<dots> = image_mset fst (mset ?ps)"
    by (simp only: 1)
  also have "\<dots> = mset (map fst ?ps)"
    by (rule mset_map[symmetric])
  finally have m: "mset (map fst (value_counts xs)) = mset (first_seen ?vs)"
    by (simp only: 2)
  show ?thesis
    using mset_eq_imp_distinct_iff[OF m] distinct_first_seen[of ?vs] by simp
qed

lemma value_counts_descending:
  "i < j \<Longrightarrow> j < length (value_counts xs) \<Longrightarrow>
     snd (value_counts xs ! j) \<le> snd (value_counts xs ! i)"
proof -
  assume ij: "i < j" "j < length (value_counts xs)"
  have "sorted (map (\<lambda>p. - int (snd p)) (value_counts xs))"
    by (simp add: value_counts_def Let_def)
  then have "map (\<lambda>p. - int (snd p)) (value_counts xs) ! i \<le>
             map (\<lambda>p. - int (snd p)) (value_counts xs) ! j"
    using ij by (intro sorted_nth_mono) simp_all
  with ij show ?thesis by simp
qed

lemma top_ten_of_value_counts: "top_ten_of genes (head 10 (value_counts genes))"
proof -
  let ?vc = "value_counts genes"
  let ?top = "head 10 ?vc"
  have len: "length ?top \<le> 10" by (simp add: head_def)
  have sub: "set ?top \<subseteq> set ?vc" by (simp add: head_def set_take_subset)
  have nth: "\<And>i. i < length ?top \<Longrightarrow> ?top ! i = ?vc ! i" by (simp add: head_def)
  have lt: "\<And>i. i < length ?top \<Longrightarrow> i < length ?vc" by (simp add: head_def)
  have d: "distinct (map fst ?top)"
    using distinct_value_counts[of genes] by (simp add: head_def take_map[symmetric])
  have m: "\<forall>p \<in> set ?top. fst p \<in> set genes \<and> fst p \<noteq> NaN \<and> snd p = count_list genes (fst p)"
    using sub set_value_counts[of genes] by auto
  have s: "\<forall>i j. i < j \<and> j < length ?top \<longrightarrow> snd (?top ! j) \<le> snd (?top ! i)"
  proof (intro allI impI, elim conjE)
    fix i j assume "i < j" "j < length ?top"
    then show "snd (?top ! j) \<le> snd (?top ! i)"
      using value_counts_descending[of i j genes] by (simp add: nth lt)
  qed
  have h: "\<forall>i j. i < length ?top \<and> j < length ?top \<and> snd (?top ! j) < snd (?top ! i) \<longrightarrow> i < j"
  proof (intro allI impI, elim conjE)
    fix i j assume a: "i < length ?top" "j < length ?top" "snd (?top ! j) < snd (?top ! i)"
    show "i < j"
    proof (rule ccontr)
      assume "\<not> i < j"
      then have "j < i \<or> j = i" by auto
      then show False
      proof
        assume "j < i"
        with a(1) s have "snd (?top ! i) \<le> snd (?top ! j)" by blast
        with a(3) show False by simp
      next
        assume "j = i"
        with a(3) show False by simp
      qed
    qed
  qed
  have r: "\<forall>g \<in> set genes. g \<noteq> NaN \<and> g \<notin> fst ` set ?top \<longrightarrow>
        length ?top = 10 \<and> (\<forall>p \<in> set ?top. count_list genes g \<le> snd p)"
  proof (intro ballI impI, elim conjE)
    fix g assume g: "g \<in> set genes" "g \<noteq> NaN" "g \<notin> fst ` set ?top"
    from g(1,2) have "(g, count_list genes g) \<in> set ?vc"
      by (simp add: set_value_counts)
    then obtain k where k: "k < length ?vc" "?vc ! k = (g, count_list genes g)"
      by (auto simp: in_set_conv_nth)
    have k10: "10 \<le> k"
    proof (rule ccontr)
      assume "\<not> 10 \<le> k"
      with k(1) have "k < length ?top" by (simp add: head_def)
      then have "?top ! k \<in> set ?top" by (rule nth_mem)
      moreover from \<open>k < length ?top\<close> k(2) have "?top ! k = (g, count_list genes g)"
        by (simp add: nth)
      ultimately have "g \<in> fst ` set ?top" by force
      with g(3) show False by simp
    qed
    with k(1) have l10: "length ?top = 10" by (simp add: head_def)
    have "\<forall>p \<in> set ?top. count_list genes g \<le> snd p"
    proof
      fix p assume "p \<in> set ?top"
      then obtain i where i: "i < length ?top" "?top ! i = p"
        by (auto simp: in_set_conv_nth)
      with l10 k10 have "i < k" by simp
      then have "snd (?vc ! k) \<le> snd (?vc ! i)"
        using k(1) by (rule value_counts_descending)
      with i k(2) show "count_list genes g \<le> snd p" by (simp add: nth)
    qed
    with l10 show "length ?top = 10 \<and> (\<forall>p \<in> set ?top. count_list genes g \<le> snd p)"
      by simp
  qed
  from len d m s h r show ?thesis unfolding top_ten_of_def by (intro conjI)
qed

lemma get_column_pd_concat:
  "pd_concat dfs = Inr combined \<Longrightarrow> get_column combined col = Inr cells \<Longrightarrow>
     cells = concat (map (\<lambda>df. case map_of df col of
                                   Some cs \<Rightarrow> cs
                                 | None \<Rightarrow> replicate (nrows df) NaN) dfs)"
  by (auto simp: pd_concat_def get_column_def map_of_map_restrict restrict_map_def
           split: if_splits option.splits)

lemma create_stage_summary_top:
  assumes "snp_data sd \<noteq> []" and "create_stage_summary stage sd = Inr summary"
  shows "\<exists>combined genes ranked.
           pd_concat (snp_data sd) = Inr combined \<and>
           get_column combined ''Hugo_Symbol'' = Inr genes \<and>
           map_of summary ''Top_Mutated_Genes'' = Some (CountsFrame ''Mutation_Count'' ranked) \<and>
           top_ten_of genes ranked"
proof -
  from assms obtain combined where c: "pd_concat (snp_data sd) = Inr combined"
    by (cases "pd_concat (snp_data sd)") (simp_all add: create_stage_summary_def)
  from assms c obtain genes where g: "get_column combined ''Hugo_Symbol'' = Inr genes"
    by (cases "get_column combined ''Hugo_Symbol''") (simp_all add: create_stage_summary_def)
  from assms c g obtain classes where
    k: "get_column combined ''Variant_Classification'' = Inr classes"
    by (cases "get_column combined ''Variant_Classification''")
       (simp_all add: create_stage_summary_def)
  from assms c g k have
    "map_of summary ''Top_Mutated_Genes'' =
       Some (CountsFrame ''Mutation_Count'' (head 10 (value_counts genes)))"
    by (auto simp: create_stage_summary_def)
  with c g top_ten_of_value_counts[of genes] show ?thesis by blast
qed

lemma save_summary_to_excel_top:
  assumes "by_sample \<noteq> []" and "snd (save_summary_to_excel vals by_sample) = None"
  shows "\<exists>combined genes ranked.
           pd_concat (concat (map snd by_sample)) = Inr combined \<and>
           get_column combined ''Hugo_Symbol'' = Inr genes \<and>
           map_of (fst (save_summary_to_excel vals by_sample)) ''Top_Mutated_Genes'' =
             Some (CountsFrame ''Mutation_Count'' ranked) \<and>
           top_ten_of genes ranked"
proof -
  from assms obtain combined where c: "pd_concat (concat (map snd by_sample)) = Inr combined"
    by (cases "pd_concat (concat (map snd by_sample))")
       (simp_all add: save_summary_to_excel_def)
  from assms c obtain genes where g: "get_column combined ''Hugo_Symbol'' = Inr genes"
    by (cases "get_column combined ''Hugo_Symbol''") (simp_all add: save_summary_to_excel_def)
  from assms c g obtain classes where
    k: "get_column combined ''Variant_Classification'' = Inr classes"
    by (cases "get_column combined ''Variant_Classification''")
       (simp_all add: save_summary_to_excel_def Let_def)
  from assms c g k have
    "map_of (fst (save_summary_to_excel vals by_sample)) ''Top_Mutated_Genes'' =
       Some (CountsFrame ''Mutation_Count'' (head 10 (value_counts genes)))"
    by (auto simp: save_summary_to_excel_def Let_def)
  with c g top_ten_of_value_counts[of genes] show ?thesis by blast
qed

lemma most_frequent_first:
  assumes c: "count_list genes (Str ''TP53'') = 5" "count_list genes (Str ''KRAS'') = 3"
             "count_list genes (Str ''EGFR'') = 3"
      and s: "set genes \<subseteq> {Str ''TP53'', Str ''KRAS'', Str ''EGFR'', NaN}"
      and n: "0 < n"
  shows "hd (head n (value_counts genes)) = (Str ''TP53'', 5)"
proof -
  let ?vc = "value_counts genes"
  from c(1) have "Str ''TP53'' \<in> set genes"
    by (metis count_list_0_iff zero_neq_numeral)
  with c(1) have "(Str ''TP53'', 5) \<in> set ?vc"
    by (auto simp: set_value_counts)
  then obtain k where k: "k < length ?vc" "?vc ! k = (Str ''TP53'', 5)"
    by (auto simp: in_set_conv_nth)
  then have ne: "?vc \<noteq> []" by auto
  then have "?vc ! 0 \<in> set ?vc" by simp
  then obtain g where g: "?vc ! 0 = (g, count_list genes g)" "g \<in> set genes" "g \<noteq> NaN"
    by (auto simp: set_value_counts)
  have "5 \<le> count_list genes g"
  proof (cases "k = 0")
    case True
    with k(2) g(1) have "(g, count_list genes g) = (Str ''TP53'', 5::nat)" by metis
    then have "g = Str ''TP53''" by (rule Pair_inject)
    with c(1) show ?thesis by simp
  next
    case False
    then have "0 < k" by simp
    then have "snd (?vc ! k) \<le> snd (?vc ! 0)"
      using k(1) by (rule value_counts_descending)
    then have "snd (Str ''TP53'', 5::nat) \<le> snd (g, count_list genes g)"
      unfolding k(2) g(1) .
    then show ?thesis by simp
  qed
  moreover from g(2,3) s have "g = Str ''TP53'' \<or> g = Str ''KRAS'' \<or> g = Str ''EGFR''"
    by auto
  ultimately have "g = Str ''TP53''" using c(2,3) by auto
  with g(1) c(1) have "?vc ! 0 = (Str ''TP53'', 5)" by simp
  with ne n show ?thesis by (simp add: head_def hd_conv_nth)
qed

lemma pd_concat_column_present:
  assumes "dfs \<noteq> []" and "\<exists>df \<in> set dfs. c \<in> fst ` set df"
  shows "\<exists>combined cells. pd_concat dfs = Inr combined \<and> get_column combined c = Inr cells"
proof -
  from assms(2) have "c \<in> set (first_seen (concat (map (map fst) dfs)))"
    by (auto simp: set_first_seen)
  with assms(1) show ?thesis
    by (simp add: pd_concat_def get_column_def map_of_map_restrict restrict_map_def)
qed

lemma create_stage_summary_succeeds:
  assumes "\<forall>df \<in> set (snp_data sd).
             ''Hugo_Symbol'' \<in> fst ` set df \<and> ''Variant_Classification'' \<in> fst ` set df"
  shows "\<exists>summary. create_stage_summary stage sd = Inr summary"
proof (cases "snp_data sd = []")
  case True
  then show ?thesis by (simp add: create_stage_summary_def)
next
  case False
  then obtain df where df: "df \<in> set (snp_data sd)" by (cases "snp_data sd") auto
  with assms have h: "\<exists>df \<in> set (snp_data sd). ''Hugo_Symbol'' \<in> fst ` set df"
    and v: "\<exists>df \<in> set (snp_data sd). ''Variant_Classification'' \<in> fst ` set df"
    by blast+
  from pd_concat_column_present[OF False h] obtain combined genes where
    c: "pd_concat (snp_data sd) = Inr combined" "get_column combined ''Hugo_Symbol'' = Inr genes"
    by blast
  from pd_concat_column_present[OF False v] c(1) obtain classes where
    k: "get_column combined ''Variant_Classification'' = Inr classes"
    by auto
  from False c k show ?thesis by (simp add: create_stage_summary_def)
qed

lemma save_summary_to_excel_succeeds:
  assumes "concat (map snd by_sample) \<noteq> []"
      and "\<forall>df \<in> set (concat (map snd by_sample)).
             ''Hugo_Symbol'' \<in> fst ` set df \<and> ''Variant_Classification'' \<in> fst ` set df"
  shows "snd (save_summary_to_excel vals by_sample) = None"
proof -
  let ?dfs = "concat (map snd by_sample)"
  from assms(1) obtain df where df: "df \<in> set ?dfs" by (cases ?dfs) auto
  with assms(2) have h: "\<exists>df \<in> set ?dfs. ''Hugo_Symbol'' \<in> fst ` set df"
    and v: "\<exists>df \<in> set ?dfs. ''Variant_Classification'' \<in> fst ` set df"
    by blast+
  from pd_concat_column_present[OF assms(1) h] obtain combined genes where
    c: "pd_concat ?dfs = Inr combined" "get_column combined ''Hugo_Symbol'' = Inr genes"
    by blast
  from pd_concat_column_present[OF assms(1) v] c(1) obtain classes where
    k: "get_column combined ''Variant_Classification'' = Inr classes"
    by auto
  from c k show ?thesis by (simp add: save_summary_to_excel_def Let_def)
qed

text \<open>
  C8. For every non-empty collection of mutation tables that carry the columns
  \<open>Hugo_Symbol\<close> and \<open>Variant_Classification\<close> the summary is produced; and
  whenever it is produced, the table \<open>Top_Mutated_Genes\<close> (of
  \<open>create_stage_summary\<close>, and of \<open>save_summary_to_excel\<close> in the overall variant)
  counts the rows of the concatenated tables by gene symbol: it has at most 10 entries,
  one per gene with the number of rows of that gene, in descending order of count, a
  gene with a strictly higher count stands before a gene with a lower count, and a gene
  left out has no more rows than any gene listed. In particular, for rows with 5 of
  TP53, 3 of KRAS and 3 of EGFR the first entry of the top 2, and of the top 10, is
  TP53 with 5.
\<close>

theorem top_mutated_genes_summary:
  "(snp_data sd \<noteq> [] \<and> create_stage_summary stage sd = Inr summary \<longrightarrow>
      (\<exists>combined genes ranked.
         pd_concat (snp_data sd) = Inr combined \<and>
         get_column combined ''Hugo_Symbol'' = Inr genes \<and>
         genes = concat (map (\<lambda>df. case map_of df ''Hugo_Symbol'' of
                                      Some cs \<Rightarrow> cs
                                    | None \<Rightarrow> replicate (nrows df) NaN) (snp_data sd)) \<and>
         map_of summary ''Top_Mutated_Genes'' = Some (CountsFrame ''Mutation_Count'' ranked) \<and>
         top_ten_of genes ranked)) \<and>
   (by_sample \<noteq> [] \<and> snd (save_summary_to_excel vals by_sample) = None \<longrightarrow>
      (\<exists>combined genes ranked.
         pd_concat (concat (map snd by_sample)) = Inr combined \<and>
         get_column combined ''Hugo_Symbol'' = Inr genes \<and>
         genes = concat (map (\<lambda>df. case map_of df ''Hugo_Symbol'' of
                                      Some cs \<Rightarrow> cs
                                    | None \<Rightarrow> replicate (nrows df) NaN)
                           (concat (map snd by_sample))) \<and>
         map_of (fst (save_summary_to_excel vals by_sample)) ''Top_Mutated_Genes'' =
           Some (CountsFrame ''Mutation_Count'' ranked) \<and>
         top_ten_of genes ranked)) \<and>
   (count_list col (Str ''TP53'') = 5 \<and> count_list col (Str ''KRAS'') = 3 \<and>
    count_list col (Str ''EGFR'') = 3 \<and>
    set col \<subseteq> {Str ''TP53'', Str ''KRAS'', Str ''EGFR'', NaN} \<longrightarrow>
      hd (head 2 (value_counts col)) = (Str ''TP53'', 5) \<and>
      hd (head 10 (value_counts col)) = (Str ''TP53'', 5)) \<and>
   (snp_data sd \<noteq> [] \<and>
    (\<forall>df \<in> set (snp_data sd).
       ''Hugo_Symbol'' \<in> fst ` set df \<and> ''Variant_Classification'' \<in> fst ` set df) \<longrightarrow>
      (\<exists>produced. create_stage_summary stage sd = Inr produced)) \<and>
   (concat (map snd by_sample) \<noteq> [] \<and>
    (\<forall>df \<in> set (concat (map snd by_sample)).
       ''Hugo_Symbol'' \<in> fst ` set df \<and> ''Variant_Classification'' \<in> fst ` set df) \<longrightarrow>
      snd (save_summary_to_excel vals by_sample) = None)"
proof (intro conjI impI)
  assume a: "snp_data sd \<noteq> [] \<and> create_stage_summary stage sd = Inr summary"
  then obtain combined genes ranked where r:
    "pd_concat (snp_data sd) = Inr combined"
    "get_column combined ''Hugo_Symbol'' = Inr genes"
    "map_of summary ''Top_Mutated_Genes'' = Some (CountsFrame ''Mutation_Count'' ranked)"
    "top_ten_of genes ranked"
    using create_stage_summary_top[of sd stage summary] by blast
  from r(1,2) have "genes = concat (map (\<lambda>df. case map_of df ''Hugo_Symbol'' of
                                      Some cs \<Rightarrow> cs
                                    | None \<Rightarrow> replicate (nrows df) NaN) (snp_data sd))"
    by (rule get_column_pd_concat)
  with r show "\<exists>combined genes ranked.
         pd_concat (snp_data sd) = Inr combined \<and>
         get_column combined ''Hugo_Symbol'' = Inr genes \<and>
         genes = concat (map (\<lambda>df. case map_of df ''Hugo_Symbol'' of
                                      Some cs \<Rightarrow> cs
                                    | None \<Rightarrow> replicate (nrows df) NaN) (snp_data sd)) \<and>
         map_of summary ''Top_Mutated_Genes'' = Some (CountsFrame ''Mutation_Count'' ranked) \<and>
         top_ten_of genes ranked"
    by blast
next
  assume a: "by_sample \<noteq> [] \<and> snd (save_summary_to_excel vals by_sample) = None"
  then obtain combined genes ranked where r:
    "pd_concat (concat (map snd by_sample)) = Inr combined"
    "get_column combined ''Hugo_Symbol'' = Inr genes"
    "map_of (fst (save_summary_to_excel vals by_sample)) ''Top_Mutated_Genes'' =
       Some (CountsFrame ''Mutation_Count'' ranked)"
    "top_ten_of genes ranked"
    using save_summary_to_excel_top[of by_sample vals] by blast
  from r(1,2) have "genes = concat (map (\<lambda>df. case map_of df ''Hugo_Symbol'' of
                                      Some cs \<Rightarrow> cs
                                    | None \<Rightarrow> replicate (nrows df) NaN)
                           (concat (map snd by_sample)))"
    by (rule get_column_pd_concat)
  with r show "\<exists>combined genes ranked.
         pd_concat (concat (map snd by_sample)) = Inr combined \<and>
         get_column combined ''Hugo_Symbol'' = Inr genes \<and>
         genes = concat (map (\<lambda>df. case map_of df ''Hugo_Symbol'' of
                                      Some cs \<Rightarrow> cs
                                    | None \<Rightarrow> replicate (nrows df) NaN)
                           (concat (map snd by_sample))) \<and>
         map_of (fst (save_summary_to_excel vals by_sample)) ''Top_Mutated_Genes'' =
           Some (CountsFrame ''Mutation_Count'' ranked) \<and>
         top_ten_of genes ranked"
    by blast
next
  assume a: "count_list col (Str ''TP53'') = 5 \<and> count_list col (Str ''KRAS'') = 3 \<and>
    count_list col (Str ''EGFR'') = 3 \<and>
    set col \<subseteq> {Str ''TP53'', Str ''KRAS'', Str ''EGFR'', NaN}"
  then show "hd (head 2 (value_counts col)) = (Str ''TP53'', 5)"
    by (intro most_frequent_first) simp_all
next
  assume a: "count_list col (Str ''TP53'') = 5 \<and> count_list col (Str ''KRAS'') = 3 \<and>
    count_list col (Str ''EGFR'') = 3 \<and>
    set col \<subseteq> {Str ''TP53'', Str ''KRAS'', Str ''EGFR'', NaN}"
  then show "hd (head 10 (value_counts col)) = (Str ''TP53'', 5)"
    by (intro most_frequent_first) simp_all
next
  assume "snp_data sd \<noteq> [] \<and>
    (\<forall>df \<in> set (snp_data sd).
       ''Hugo_Symbol'' \<in> fst ` set df \<and> ''Variant_Classification'' \<in> fst ` set df)"
  then show "\<exists>produced. create_stage_summary stage sd = Inr produced"
    by (intro create_stage_summary_succeeds) simp
next
  assume "concat (map snd by_sample) \<noteq> [] \<and>
    (\<forall>df \<in> set (concat (map snd by_sample)).
       ''Hugo_Symbol'' \<in> fst ` set df \<and> ''Variant_Classification'' \<in> fst ` set df)"
  then show "snd (save_summary_to_excel vals by_sample) = None"
    by (intro save_summary_to_excel_succeeds) simp_all
qed

lemma example_value_counts:
  "value_counts example_genes = [(Str ''TP53'', 5), (Str ''KRAS'', 3), (Str ''EGFR'', 3)]"
  unfolding example_genes_def by code_simp

lemma example_pd_concat:
  "pd_concat (snp_data example_mutations) =
   Inr [(''Hugo_Symbol'', example_genes),
        (''Variant_Classification'',
           [Str ''Silent'', Str ''Missense'', Str ''Missense'', Str ''Silent'', Str ''Missense'',
            Str ''Missense'', Str ''Missense'', Str ''Missense'', Str ''Silent'',
            Str ''Missense'', Str ''Missense''])]"
  unfolding example_genes_def example_mutations_def by code_simp

lemma example_class_counts:
  "value_counts [Str ''Silent'', Str ''Missense'', Str ''Missense'', Str ''Silent'',
       Str ''Missense'', Str ''Missense'', Str ''Missense'', Str ''Missense'', Str ''Silent'',
       Str ''Missense'', Str ''Missense''] = [(Str ''Missense'', 8), (Str ''Silent'', 3)]"
  by code_simp

lemma example_stage_summary:
  "create_stage_summary ''I'' example_mutations =
   Inr [(''Top_Mutated_Genes'', CountsFrame ''Mutation_Count''
          [(Str ''TP53'', 5), (Str ''KRAS'', 3), (Str ''EGFR'', 3)]),
        (''Mutation_Classification'', CountsFrame ''Count''
          [(Str ''Missense'', 8), (Str ''Silent'', 3)])]"
proof -
  have e: "cnv_segment_means example_mutations = []" "snp_data example_mutations \<noteq> []"
    by (simp_all add: example_mutations_def)
  show ?thesis
    unfolding create_stage_summary_def
    by (simp add: e example_pd_concat get_column_def example_value_counts
          example_class_counts head_def)
qed

lemma example_overall_summary:
  "save_summary_to_excel [] [(''S1'', snp_data example_mutations)] =
   ([(''Top_Mutated_Genes'', CountsFrame ''Mutation_Count''
          [(Str ''TP53'', 5), (Str ''KRAS'', 3), (Str ''EGFR'', 3)]),
     (''Mutation_Classification'', CountsFrame ''Count''
          [(Str ''Missense'', 8), (Str ''Silent'', 3)])], None)"
  unfolding save_summary_to_excel_def
  by (simp add: example_pd_concat get_column_def example_value_counts
        example_class_counts head_def)

lemma example_gene_column:
  "concat (map (\<lambda>df. case map_of df ''Hugo_Symbol'' of
                        Some cs \<Rightarrow> cs
                      | None \<Rightarrow> replicate (nrows df) NaN) (snp_data example_mutations)) =
   example_genes"
  by (simp add: example_mutations_def example_genes_def)

theorem top_mutated_genes_summary_witness:
  "snp_data example_mutations \<noteq> [] \<and>
   create_stage_summary ''I'' example_mutations =
     Inr [(''Top_Mutated_Genes'', CountsFrame ''Mutation_Count''
            [(Str ''TP53'', 5), (Str ''KRAS'', 3), (Str ''EGFR'', 3)]),
          (''Mutation_Classification'', CountsFrame ''Count''
            [(Str ''Missense'', 8), (Str ''Silent'', 3)])] \<and>
   top_ten_of example_genes [(Str ''TP53'', 5), (Str ''KRAS'', 3), (Str ''EGFR'', 3)] \<and>
   snd (save_summary_to_excel [] [(''S1'', snp_data example_mutations)]) = None \<and>
   count_list example_genes (Str ''TP53'') = 5 \<and>
   count_list example_genes (Str ''KRAS'') = 3 \<and>
   count_list example_genes (Str ''EGFR'') = 3 \<and>
   hd (head 2 (value_counts example_genes)) = (Str ''TP53'', 5) \<and>
   hd (head 10 (value_counts example_genes)) = (Str ''TP53'', 5)"
proof -
  let ?summary = "[(''Top_Mutated_Genes'', CountsFrame ''Mutation_Count''
            [(Str ''TP53'', 5), (Str ''KRAS'', 3), (Str ''EGFR'', 3)]),
          (''Mutation_Classification'', CountsFrame ''Count''
            [(Str ''Missense'', 8), (Str ''Silent'', 3)])]"
  let ?by_sample = "[(''S1'', snp_data example_mutations)]"
  note T = top_mutated_genes_summary
    [of example_mutations "''I''" ?summary ?by_sample "[]" example_genes]
  have ne: "snp_data example_mutations \<noteq> []"
    by (simp add: example_mutations_def)
  have ov: "snd (save_summary_to_excel [] ?by_sample) = None" "?by_sample \<noteq> []"
    by (simp_all add: example_overall_summary)
  have c: "count_list example_genes (Str ''TP53'') = 5"
    "count_list example_genes (Str ''KRAS'') = 3"
    "count_list example_genes (Str ''EGFR'') = 3"
    unfolding example_genes_def by code_simp+
  have sub: "set example_genes \<subseteq> {Str ''TP53'', Str ''KRAS'', Str ''EGFR'', NaN}"
    by (simp add: example_genes_def)
  from T ne example_stage_summary obtain genes ranked where r:
    "genes = concat (map (\<lambda>df. case map_of df ''Hugo_Symbol'' of
                        Some cs \<Rightarrow> cs
                      | None \<Rightarrow> replicate (nrows df) NaN) (snp_data example_mutations))"
    "map_of ?summary ''Top_Mutated_Genes'' = Some (CountsFrame ''Mutation_Count'' ranked)"
    "top_ten_of genes ranked"
    by blast
  from r(1) have g: "genes = example_genes" by (simp only: example_gene_column)
  from r(2) have k: "ranked = [(Str ''TP53'', 5), (Str ''KRAS'', 3), (Str ''EGFR'', 3)]"
    by simp
  from r(3) have t: "top_ten_of example_genes [(Str ''TP53'', 5), (Str ''KRAS'', 3), (Str ''EGFR'', 3)]"
    unfolding g k .
  from T c sub have h: "hd (head 2 (value_counts example_genes)) = (Str ''TP53'', 5) \<and>
      hd (head 10 (value_counts example_genes)) = (Str ''TP53'', 5)"
    by blast
  from ne example_stage_summary t ov(1) c h show ?thesis
    by (intro conjI) (elim conjE, assumption)+
qed

subsection \<open>Sheets of the overall workbook\<close>

lemma save_summary_to_excel_names:
  "map fst (fst (save_summary_to_excel vals by_sample)) =
     (if vals \<noteq> [] then [''CNV_Segment_Stats''] else []) @
     (if by_sample = [] then []
      else case pd_concat (concat (map snd by_sample)) of
             Inl e \<Rightarrow> []
           | Inr combined \<Rightarrow>
               (case get_column combined ''Hugo_Symbol'' of
                  Inl e \<Rightarrow> []
                | Inr genes \<Rightarrow>
                    (case get_column combined ''Variant_Classification'' of
                       Inl e \<Rightarrow> [''Top_Mutated_Genes'']
                     | Inr classes \<Rightarrow> [''Top_Mutated_Genes'', ''Mutation_Classification''])))"
  by (simp add: save_summary_to_excel_def Let_def split: sum.splits)

lemma save_summary_to_excel_raised:
  "snd (save_summary_to_excel vals by_sample) = None \<longleftrightarrow>
     (by_sample = [] \<or>
      (\<exists>combined genes classes.
         pd_concat (concat (map snd by_sample)) = Inr combined \<and>
         get_column combined ''Hugo_Symbol'' = Inr genes \<and>
         get_column combined ''Variant_Classification'' = Inr classes))"
  by (auto simp: save_summary_to_excel_def Let_def split: sum.splits)

text \<open>
  C1, as the code has it. \<open>save_summary_to_excel\<close> writes the sheet
  \<open>CNV_Segment_Stats\<close> exactly when the merged segment-mean sequence is not empty,
  and none of the two mutation sheets when the sample-keyed mapping is empty; when the
  mapping is not empty and no library call raises, it writes \<open>Top_Mutated_Genes\<close>
  and \<open>Mutation_Classification\<close>. The sheets written are, for every input, some of
  the three names in their fixed order, and they are all three exactly when both inputs
  are not empty and no library call raises.
\<close>

theorem save_summary_to_excel_sheets:
  "(''CNV_Segment_Stats'' \<in> set (map fst (fst (save_summary_to_excel vals by_sample)))
      \<longleftrightarrow> vals \<noteq> []) \<and>
   (by_sample = [] \<longrightarrow>
      ''Top_Mutated_Genes'' \<notin> set (map fst (fst (save_summary_to_excel vals by_sample))) \<and>
      ''Mutation_Classification'' \<notin> set (map fst (fst (save_summary_to_excel vals by_sample))) \<and>
      snd (save_summary_to_excel vals by_sample) = None) \<and>
   (by_sample \<noteq> [] \<and> snd (save_summary_to_excel vals by_sample) = None \<longrightarrow>
      map fst (fst (save_summary_to_excel vals by_sample)) =
        (if vals \<noteq> [] then [''CNV_Segment_Stats''] else []) @
        [''Top_Mutated_Genes'', ''Mutation_Classification'']) \<and>
   subseq (map fst (fst (save_summary_to_excel vals by_sample)))
     [''CNV_Segment_Stats'', ''Top_Mutated_Genes'', ''Mutation_Classification''] \<and>
   (map fst (fst (save_summary_to_excel vals by_sample)) =
      [''CNV_Segment_Stats'', ''Top_Mutated_Genes'', ''Mutation_Classification''] \<longleftrightarrow>
    vals \<noteq> [] \<and> by_sample \<noteq> [] \<and> snd (save_summary_to_excel vals by_sample) = None)"
proof -
  let ?names = "map fst (fst (save_summary_to_excel vals by_sample))"
  let ?ok = "\<exists>combined genes classes.
         pd_concat (concat (map snd by_sample)) = Inr combined \<and>
         get_column combined ''Hugo_Symbol'' = Inr genes \<and>
         get_column combined ''Variant_Classification'' = Inr classes"
  obtain rest where n: "?names = (if vals \<noteq> [] then [''CNV_Segment_Stats''] else []) @ rest"
    and r: "rest = [] \<or> rest = [''Top_Mutated_Genes''] \<or>
            rest = [''Top_Mutated_Genes'', ''Mutation_Classification'']"
    and f: "rest = [''Top_Mutated_Genes'', ''Mutation_Classification''] \<longleftrightarrow>
            by_sample \<noteq> [] \<and> ?ok"
    and g: "by_sample = [] \<longrightarrow> rest = []"
  proof
    let ?rest = "if by_sample = [] then []
      else case pd_concat (concat (map snd by_sample)) of
             Inl e \<Rightarrow> []
           | Inr combined \<Rightarrow>
               (case get_column combined ''Hugo_Symbol'' of
                  Inl e \<Rightarrow> []
                | Inr genes \<Rightarrow>
                    (case get_column combined ''Variant_Classification'' of
                       Inl e \<Rightarrow> [''Top_Mutated_Genes'']
                     | Inr classes \<Rightarrow> [''Top_Mutated_Genes'', ''Mutation_Classification'']))"
    show "?names = (if vals \<noteq> [] then [''CNV_Segment_Stats''] else []) @ ?rest"
      by (rule save_summary_to_excel_names)
    show "?rest = [] \<or> ?rest = [''Top_Mutated_Genes''] \<or>
            ?rest = [''Top_Mutated_Genes'', ''Mutation_Classification'']"
      by (simp split: sum.splits)
    show "?rest = [''Top_Mutated_Genes'', ''Mutation_Classification''] \<longleftrightarrow>
            by_sample \<noteq> [] \<and> ?ok"
      by (cases "pd_concat (concat (map snd by_sample))")
         (auto split: sum.splits)
    show "by_sample = [] \<longrightarrow> ?rest = []"
      by simp
  qed
  have s: "snd (save_summary_to_excel vals by_sample) = None \<longleftrightarrow> by_sample = [] \<or> ?ok"
    by (rule save_summary_to_excel_raised)
  have a: "''CNV_Segment_Stats'' \<in> set ?names \<longleftrightarrow> vals \<noteq> []"
    unfolding n using r by auto
  have b: "by_sample = [] \<longrightarrow>
      ''Top_Mutated_Genes'' \<notin> set ?names \<and> ''Mutation_Classification'' \<notin> set ?names \<and>
      snd (save_summary_to_excel vals by_sample) = None"
    unfolding n s using g by auto
  have c: "by_sample \<noteq> [] \<and> snd (save_summary_to_excel vals by_sample) = None \<longrightarrow>
      ?names = (if vals \<noteq> [] then [''CNV_Segment_Stats''] else []) @
        [''Top_Mutated_Genes'', ''Mutation_Classification'']"
    unfolding n s using f by auto
  have d: "subseq ?names
     [''CNV_Segment_Stats'', ''Top_Mutated_Genes'', ''Mutation_Classification'']"
    unfolding n using r by auto
  have e: "?names = [''CNV_Segment_Stats'', ''Top_Mutated_Genes'', ''Mutation_Classification'']
      \<longleftrightarrow> vals \<noteq> [] \<and> by_sample \<noteq> [] \<and> snd (save_summary_to_excel vals by_sample) = None"
    unfolding n s using f r by auto
  from a b c d e show ?thesis by (intro conjI)
qed

theorem save_summary_to_excel_sheets_witness:
  "snd (save_summary_to_excel [Num 1] [(''S1'', snp_data example_mutations)]) = None \<and>
   map fst (fst (save_summary_to_excel [Num 1] [(''S1'', snp_data example_mutations)])) =
     [''CNV_Segment_Stats'', ''Top_Mutated_Genes'', ''Mutation_Classification''] \<and>
   ''Top_Mutated_Genes'' \<notin> set (map fst (fst (save_summary_to_excel [Num 1] []))) \<and>
   ''Mutation_Classification'' \<notin> set (map fst (fst (save_summary_to_excel [Num 1] []))) \<and>
   ''CNV_Segment_Stats'' \<in> set (map fst (fst (save_summary_to_excel [Num 1] [])))"
proof -
  let ?by_sample = "[(''S1'', snp_data example_mutations)]"
  note T = save_summary_to_excel_sheets[of "[Num 1]" ?by_sample]
  note U = save_summary_to_excel_sheets[of "[Num 1]" "[]"]
  have s: "snd (save_summary_to_excel [Num 1] ?by_sample) = None"
    unfolding save_summary_to_excel_def
    by (simp add: example_pd_concat get_column_def)
  from T have "map fst (fst (save_summary_to_excel [Num 1] ?by_sample)) =
      [''CNV_Segment_Stats'', ''Top_Mutated_Genes'', ''Mutation_Classification''] \<longleftrightarrow>
    [Num 1] \<noteq> [] \<and> ?by_sample \<noteq> [] \<and> snd (save_summary_to_excel [Num 1] ?by_sample) = None"
    by (elim conjE)
  with s have a: "map fst (fst (save_summary_to_excel [Num 1] ?by_sample)) =
      [''CNV_Segment_Stats'', ''Top_Mutated_Genes'', ''Mutation_Classification'']"
    by simp
  from U have "([]::(string \<times> table list) list) = [] \<longrightarrow>
      ''Top_Mutated_Genes'' \<notin> set (map fst (fst (save_summary_to_excel [Num 1] []))) \<and>
      ''Mutation_Classification'' \<notin> set (map fst (fst (save_summary_to_excel [Num 1] []))) \<and>
      snd (save_summary_to_excel [Num 1] []) = None"
    by (elim conjE)
  then have b: "''Top_Mutated_Genes'' \<notin> set (map fst (fst (save_summary_to_excel [Num 1] [])))"
    "''Mutation_Classification'' \<notin> set (map fst (fst (save_summary_to_excel [Num 1] [])))"
    by simp_all
  from U have "''CNV_Segment_Stats'' \<in> set (map fst (fst (save_summary_to_excel [Num 1] [])))
      \<longleftrightarrow> [Num 1] \<noteq> []"
    by (elim conjE)
  then have c: "''CNV_Segment_Stats'' \<in> set (map fst (fst (save_summary_to_excel [Num 1] [])))"
    by simp
  from s a b c show ?thesis by (intro conjI)
qed

text \<open>
  With no segment-mean values and an empty mapping, \<open>save_summary_to_excel\<close> writes
  no sheet at all: the three sheets are not written for every input.
\<close>

theorem save_summary_to_excel_not_always_three_sheets:
  "map fst (fst (save_summary_to_excel [] [])) \<noteq>
     [''CNV_Segment_Stats'', ''Top_Mutated_Genes'', ''Mutation_Classification'']"
  by (simp add: save_summary_to_excel_def)

end
